theory Spec2Isabelle
  imports Main "HOL-Library.Sublist"
begin

section \<open>Python strings\<close>

text \<open>
  The program is \<^verbatim>\<open>src/ai_response.py\<close>. A Python \<^verbatim>\<open>str\<close> is modelled as a
  \<^typ>\<open>string\<close>; a character stands for an ASCII code point, and the character
  classes of \<^verbatim>\<open>str.lower\<close>, \<^verbatim>\<open>str.upper\<close>, \<^verbatim>\<open>str.strip\<close> and of the regular
  expressions \<^verbatim>\<open>\s\<close> and \<^verbatim>\<open>\d\<close> are the ASCII ones. The few non-ASCII characters
  of the source's own literals are written as their UTF-8 bytes.
\<close>

definition NL :: string where
  "NL = [CHR 0x0A]"

definition upper_letters :: string where
  "upper_letters = ''ABCDEFGHIJKLMNOPQRSTUVWXYZ''"

definition lower_letters :: string where
  "lower_letters = ''abcdefghijklmnopqrstuvwxyz''"

definition lower_char :: "char \<Rightarrow> char" where
  "lower_char c = (case map_of (zip upper_letters lower_letters) c of Some d \<Rightarrow> d | None \<Rightarrow> c)"

definition upper_char :: "char \<Rightarrow> char" where
  "upper_char c = (case map_of (zip lower_letters upper_letters) c of Some d \<Rightarrow> d | None \<Rightarrow> c)"

text \<open>\<^verbatim>\<open>s.lower()\<close> and \<^verbatim>\<open>s.upper()\<close>.\<close>

definition lower :: "string \<Rightarrow> string" where
  "lower s = map lower_char s"

definition upper :: "string \<Rightarrow> string" where
  "upper s = map upper_char s"

text \<open>
  Whitespace as \<^verbatim>\<open>str.isspace\<close> and \<^verbatim>\<open>\s\<close> see it on ASCII: tab, line feed,
  vertical tab, form feed, carriage return, the four separators 0x1C to 0x1F, and space.
\<close>

definition isspace :: "char \<Rightarrow> bool" where
  "isspace c = (let n = (of_char c :: nat) in (9 \<le> n \<and> n \<le> 13) \<or> (28 \<le> n \<and> n \<le> 32))"

definition isdigit :: "char \<Rightarrow> bool" where
  "isdigit c = (let n = (of_char c :: nat) in 48 \<le> n \<and> n \<le> 57)"

text \<open>\<^verbatim>\<open>s.strip()\<close>.\<close>

definition strip :: "string \<Rightarrow> string" where
  "strip s = rev (dropWhile isspace (rev (dropWhile isspace s)))"

text \<open>\<^verbatim>\<open>s.startswith(p)\<close> is \<^term>\<open>prefix p s\<close>; \<^verbatim>\<open>s.endswith(p)\<close>:\<close>

definition endswith :: "string \<Rightarrow> string \<Rightarrow> bool" where
  "endswith s p = prefix (rev p) (rev s)"

text \<open>\<^verbatim>\<open>sub in s\<close>: the leftmost-first scan for an occurrence of \<open>sub\<close>.\<close>

fun py_in :: "string \<Rightarrow> string \<Rightarrow> bool" where
  "py_in sub [] = (sub = [])"
| "py_in sub (c # cs) = (prefix sub (c # cs) \<or> py_in sub cs)"

text \<open>
  \<^verbatim>\<open>s.split(sep, 1)\<close> for a non-empty separator: the text before the first
  occurrence of \<open>sep\<close> and the text after it, or \<open>s\<close> alone when \<open>sep\<close> does not occur.
\<close>

fun cut_first :: "string \<Rightarrow> string \<Rightarrow> (string \<times> string) option" where
  "cut_first sep [] = None"
| "cut_first sep (c # cs) =
     (if prefix sep (c # cs) then Some ([], drop (length sep) (c # cs))
      else (case cut_first sep cs of
              None \<Rightarrow> None
            | Some (before, after) \<Rightarrow> Some (c # before, after)))"

definition split1 :: "string \<Rightarrow> string \<Rightarrow> string list" where
  "split1 sep s = (case cut_first sep s of None \<Rightarrow> [s] | Some (before, after) \<Rightarrow> [before, after])"

text \<open>\<^verbatim>\<open>sep.join(xs)\<close>.\<close>

fun join :: "string \<Rightarrow> string list \<Rightarrow> string" where
  "join sep [] = []"
| "join sep [x] = x"
| "join sep (x # y # ys) = x @ sep @ join sep (y # ys)"

text \<open>
  The number that a run of decimal digits denotes, and \<^verbatim>\<open>str(n)\<close> (what an f-string
  writes for a non-negative integer). Python's integers are unbounded, so \<^typ>\<open>nat\<close>.
\<close>

definition digit_val :: "char \<Rightarrow> nat" where
  "digit_val c = of_char c - 48"

definition int_of_digits :: "string \<Rightarrow> nat" where
  "int_of_digits ds = foldl (\<lambda>a c. 10 * a + digit_val c) 0 ds"

definition digit_char :: "nat \<Rightarrow> char" where
  "digit_char d = ''0123456789'' ! d"

fun str_nat :: "nat \<Rightarrow> string" where
  "str_nat n =
     (if n < 10 then [digit_char n] else str_nat (n div 10) @ [digit_char (n mod 10)])"

declare str_nat.simps [simp del]

section \<open>Errors\<close>

datatype error = OSError | IndexError | GatewayFailure | EOFError | ValueError

text \<open>\<^verbatim>\<open>xs[i]\<close> raises \<^verbatim>\<open>IndexError\<close> out of range.\<close>

definition py_index :: "'a list \<Rightarrow> nat \<Rightarrow> error + 'a" where
  "py_index xs i = (if i < length xs then Inr (xs ! i) else Inl IndexError)"

text \<open>
  \<^verbatim>\<open>int(digits)\<close> on a run of decimal digits, as the regular expressions hand it over.
  CPython refuses to convert a string of more than 4300 digits (the default of
  \<^verbatim>\<open>sys.get_int_max_str_digits()\<close>, leading zeros counted) and raises \<^verbatim>\<open>ValueError\<close>.
\<close>

definition max_str_digits :: nat where
  "max_str_digits = 4300"

definition py_int :: "string \<Rightarrow> error + nat" where
  "py_int ds = (if max_str_digits < length ds then Inl ValueError else Inr (int_of_digits ds))"

section \<open>Dictionaries\<close>

text \<open>
  A Python \<^verbatim>\<open>dict\<close> keeps its keys in insertion order and the prompts are built by
  iterating over it, so a dictionary is an association list: \<^verbatim>\<open>d[k] = v\<close> replaces the
  value of a key that is present, where it stands, and appends a new key at the end.
  \<^verbatim>\<open>d.get(k)\<close> is \<^term>\<open>map_of d k\<close>.
\<close>

fun dict_set :: "'k \<Rightarrow> 'v \<Rightarrow> ('k \<times> 'v) list \<Rightarrow> ('k \<times> 'v) list" where
  "dict_set k v [] = [(k, v)]"
| "dict_set k v ((k', v') # d) = (if k' = k then (k, v) # d else (k', v') # dict_set k v d)"

definition dict_has :: "'k \<Rightarrow> ('k \<times> 'v) list \<Rightarrow> bool" where
  "dict_has k d = (k \<in> set (map fst d))"

section \<open>The corpus on disk\<close>

text \<open>
  The directory tree is read through three operations: \<^verbatim>\<open>os.listdir\<close> (\<open>None\<close> when it
  raises), \<^verbatim>\<open>os.path.isdir\<close>, and PyMuPDF's \<^verbatim>\<open>fitz.open\<close> followed by
  \<^verbatim>\<open>page.get_text()\<close> on every page (\<open>Inl msg\<close> when either raises an exception that
  prints as \<open>msg\<close>, \<open>Inr pages\<close> with the text of each page otherwise). Two more
  fields say where \<^verbatim>\<open>os.makedirs(p, exist_ok=True)\<close> and \<^verbatim>\<open>open(p, "w")\<close> succeed;
  elsewhere they raise. What is written is recorded in the \<open>world\<close> below and is not read
  back: the loaders take only names ending in \<^verbatim>\<open>.pdf\<close>, and synthesis writes none.
\<close>

record fs =
  listdir :: "string \<Rightarrow> string list option"
  isdir :: "string \<Rightarrow> bool"
  fitz_pages :: "string \<Rightarrow> string + string list"
  can_makedirs :: "string \<Rightarrow> bool"
  can_write :: "string \<Rightarrow> bool"

text \<open>\<^verbatim>\<open>os.path.join(a, b)\<close> of \<^verbatim>\<open>posixpath\<close>.\<close>

definition path_join :: "string \<Rightarrow> string \<Rightarrow> string" where
  "path_join a b =
     (if prefix ''/'' b then b
      else if a = [] \<or> endswith a ''/'' then a @ b
      else a @ ''/'' @ b)"

definition extract_text_from_pdf :: "fs \<Rightarrow> string \<Rightarrow> string" where
  "extract_text_from_pdf f pdf_path =
     (case fitz_pages f pdf_path of
        Inr pages \<Rightarrow> join NL pages
      | Inl e \<Rightarrow> ''Error reading PDF: '' @ e)"

subsection \<open>\<^verbatim>\<open>load_gtoc_pdfs_by_placement\<close>\<close>

type_synonym placement_map = "(string \<times> string) list"
type_synonym gtoc_data = "(string \<times> placement_map) list"

text \<open>Lines 39 to 46: the rank key of a rank folder.\<close>

definition placement_of :: "string \<Rightarrow> string" where
  "placement_of subfolder =
     (let folder_name = lower subfolder in
      if py_in ''1st'' folder_name then ''1st''
      else if py_in ''2nd'' folder_name then ''2nd''
      else if py_in ''3rd'' folder_name then ''3rd''
      else ''other'')"

text \<open>
  Lines 48 to 52: the loop over the files of a rank folder, which stores the first file
  whose lowercased name ends in \<^verbatim>\<open>.pdf\<close> and then breaks.
\<close>

fun scan_files :: "fs \<Rightarrow> string \<Rightarrow> string \<Rightarrow> string list \<Rightarrow> placement_map \<Rightarrow> placement_map" where
  "scan_files f subfolder_path placement [] placement_map = placement_map"
| "scan_files f subfolder_path placement (file # files) placement_map =
     (if endswith (lower file) ''.pdf''
      then dict_set placement (extract_text_from_pdf f (path_join subfolder_path file)) placement_map
      else scan_files f subfolder_path placement files placement_map)"

text \<open>Lines 34 to 52: the loop over the entries of an event folder.\<close>

fun scan_subfolders :: "fs \<Rightarrow> string \<Rightarrow> string list \<Rightarrow> placement_map \<Rightarrow> error + placement_map" where
  "scan_subfolders f gtoc_path [] placement_map = Inr placement_map"
| "scan_subfolders f gtoc_path (subfolder # rest) placement_map =
     (let subfolder_path = path_join gtoc_path subfolder in
      if \<not> isdir f subfolder_path then scan_subfolders f gtoc_path rest placement_map
      else (case listdir f subfolder_path of
              None \<Rightarrow> Inl OSError
            | Some files \<Rightarrow>
                scan_subfolders f gtoc_path rest
                  (scan_files f subfolder_path (placement_of subfolder) files placement_map)))"

text \<open>Lines 28 to 55: the loop over the entries of the base folder.\<close>

fun scan_gtoc_folders :: "fs \<Rightarrow> string \<Rightarrow> string list \<Rightarrow> gtoc_data \<Rightarrow> error + gtoc_data" where
  "scan_gtoc_folders f base_folder [] gtoc_data = Inr gtoc_data"
| "scan_gtoc_folders f base_folder (gtoc_folder # rest) gtoc_data =
     (let gtoc_path = path_join base_folder gtoc_folder in
      if \<not> isdir f gtoc_path then scan_gtoc_folders f base_folder rest gtoc_data
      else (case listdir f gtoc_path of
              None \<Rightarrow> Inl OSError
            | Some subfolders \<Rightarrow>
                (case scan_subfolders f gtoc_path subfolders [] of
                   Inl e \<Rightarrow> Inl e
                 | Inr placement_map \<Rightarrow>
                     scan_gtoc_folders f base_folder rest
                       (if placement_map \<noteq> []
                        then dict_set (lower gtoc_folder) placement_map gtoc_data
                        else gtoc_data))))"

definition load_gtoc_pdfs_by_placement :: "fs \<Rightarrow> string \<Rightarrow> error + gtoc_data" where
  "load_gtoc_pdfs_by_placement f base_folder =
     (case listdir f base_folder of
        None \<Rightarrow> Inl OSError
      | Some entries \<Rightarrow> scan_gtoc_folders f base_folder entries [])"


subsection \<open>\<^verbatim>\<open>load_past_problem_statements\<close>\<close>

definition replace_nl :: "string \<Rightarrow> string" where
  "replace_nl s = map (\<lambda>c. if c = CHR 0x0A then CHR '' '' else c) s"

fun past_files :: "fs \<Rightarrow> string \<Rightarrow> string list \<Rightarrow> string list \<Rightarrow> string list" where
  "past_files f folder_path [] problems = problems"
| "past_files f folder_path (file # files) problems =
     (if endswith (lower file) ''.pdf'' \<and> py_in ''-problem'' (lower file)
      then (let text = extract_text_from_pdf f (path_join folder_path file) in
            if text \<noteq> []
            then past_files f folder_path files (problems @ [take 1000 (replace_nl (strip text))])
            else past_files f folder_path files problems)
      else past_files f folder_path files problems)"

fun past_folders :: "fs \<Rightarrow> string \<Rightarrow> string list \<Rightarrow> string list \<Rightarrow> error + string list" where
  "past_folders f base_folder [] problems = Inr problems"
| "past_folders f base_folder (folder # rest) problems =
     (let folder_path = path_join base_folder folder in
      if \<not> isdir f folder_path then past_folders f base_folder rest problems
      else (case listdir f folder_path of
              None \<Rightarrow> Inl OSError
            | Some files \<Rightarrow>
                past_folders f base_folder rest (past_files f folder_path files problems)))"

definition load_past_problem_statements :: "fs \<Rightarrow> string \<Rightarrow> error + string list" where
  "load_past_problem_statements f base_folder =
     (case listdir f base_folder of
        None \<Rightarrow> Inl OSError
      | Some entries \<Rightarrow> past_folders f base_folder entries [])"

section \<open>Regular expressions\<close>

text \<open>
  \<^verbatim>\<open>\s*(\d+)\<close> matched at the start of \<open>s\<close>, giving group 1. Both stars are greedy and
  no whitespace character is a digit, so the match exists exactly when the first
  character after the whitespace is a digit, and the group is the longest run of digits.
\<close>

definition ws_digits :: "string \<Rightarrow> string option" where
  "ws_digits s =
     (let ds = takeWhile isdigit (dropWhile isspace s) in if ds = [] then None else Some ds)"

text \<open>\<open>label\<close>\<^verbatim>\<open>\s*(\d+)\<close> matched at the start of \<open>s\<close>, for a literal \<open>label\<close>.\<close>

definition match_label :: "string \<Rightarrow> string \<Rightarrow> string option" where
  "match_label label s = (if prefix label s then ws_digits (drop (length label) s) else None)"

text \<open>\<^verbatim>\<open>re.search\<close> of that pattern: group 1 of the leftmost match.\<close>

fun search_label :: "string \<Rightarrow> string \<Rightarrow> string option" where
  "search_label label [] = match_label label []"
| "search_label label (c # cs) =
     (case match_label label (c # cs) of
        Some g \<Rightarrow> Some g
      | None \<Rightarrow> search_label label cs)"

text \<open>
  \<^verbatim>\<open>(?:create|generate|make).*?gtoc\s*(\d+)\<close>. The three verbs begin with different
  letters, so at most one of them matches at a position; the lazy \<^verbatim>\<open>.*?\<close> then takes
  the nearest following match of \<^verbatim>\<open>gtoc\s*(\d+)\<close> that no line feed separates from the
  verb.
\<close>

definition verb_length :: "string \<Rightarrow> nat option" where
  "verb_length s =
     (if prefix ''create'' s then Some 6
      else if prefix ''generate'' s then Some 8
      else if prefix ''make'' s then Some 4
      else None)"

fun lazy_gtoc :: "string \<Rightarrow> string option" where
  "lazy_gtoc [] = None"
| "lazy_gtoc (c # cs) =
     (case match_label ''gtoc'' (c # cs) of
        Some g \<Rightarrow> Some g
      | None \<Rightarrow> if c = CHR 0x0A then None else lazy_gtoc cs)"

definition gen_at :: "string \<Rightarrow> string option" where
  "gen_at s = (case verb_length s of None \<Rightarrow> None | Some k \<Rightarrow> lazy_gtoc (drop k s))"

fun gen_search :: "string \<Rightarrow> string option" where
  "gen_search [] = None"
| "gen_search (c # cs) =
     (case gen_at (c # cs) of
        Some g \<Rightarrow> Some g
      | None \<Rightarrow> gen_search cs)"

text \<open>\<^verbatim>\<open>(1st|first|2nd|second|3rd|third)\<close>: the first alternative that matches at the
  leftmost position where one does.\<close>

definition place_words :: "string list" where
  "place_words = [''1st'', ''first'', ''2nd'', ''second'', ''3rd'', ''third'']"

fun place_search :: "string \<Rightarrow> string option" where
  "place_search [] = None"
| "place_search (c # cs) =
     (case find (\<lambda>p. prefix p (c # cs)) place_words of
        Some g \<Rightarrow> Some g
      | None \<Rightarrow> place_search cs)"

section \<open>The completion service and the other effects\<close>

text \<open>
  \<open>gateway\<close> holds what the completion service will do at each coming request: \<open>Some c\<close>
  answers with content \<open>c\<close>, \<open>None\<close> raises; when it is used up the service raises.
  \<open>requests\<close> records the prompts sent, \<open>stdout\<close> what was written to the terminal,
  \<open>made_dirs\<close> and \<open>written\<close> the directories created and the files written.
\<close>

record world =
  gateway :: "string option list"
  requests :: "string list"
  stdout :: "string list"
  made_dirs :: "string list"
  written :: "(string \<times> string) list"

definition print :: "string \<Rightarrow> world \<Rightarrow> world" where
  "print s w = w\<lparr>stdout := stdout w @ [s @ NL]\<rparr>"

definition get_openai_response :: "string \<Rightarrow> world \<Rightarrow> (error + string) \<times> world" where
  "get_openai_response prompt w =
     (case gateway w of
        [] \<Rightarrow> (Inl GatewayFailure, w\<lparr>requests := requests w @ [prompt]\<rparr>)
      | None # rest \<Rightarrow> (Inl GatewayFailure, w\<lparr>gateway := rest, requests := requests w @ [prompt]\<rparr>)
      | Some content # rest \<Rightarrow>
          (Inr (strip content), w\<lparr>gateway := rest, requests := requests w @ [prompt]\<rparr>))"

definition xai_prompt :: "string \<Rightarrow> string \<Rightarrow> string" where
  "xai_prompt generated_problem past_problems_sample =
     ''You are an expert judge of Global Trajectory Optimization Competition (GTOC) problem statements.'' @ NL @ NL @
     ''Evaluate the following GENERATED PROBLEM compared to PAST PROBLEMS:'' @ NL @
     ''- Score it 0 to 100 (alignment with past GTOCs).'' @ NL @
     ''- Explain why you gave that score.'' @ NL @
     ''- Suggest improvements.'' @ NL @ NL @
     ''PAST PROBLEMS:'' @ NL @
     past_problems_sample @ NL @ NL @
     ''GENERATED PROBLEM:'' @ NL @
     generated_problem @ NL @ NL @
     ''Your response format:'' @ NL @
     ''Score: (number)'' @ NL @
     ''Explanation: (text)'' @ NL @
     ''Suggestions: (text)'' @ NL"

definition get_xai_feedback :: "string \<Rightarrow> string \<Rightarrow> world \<Rightarrow> (error + string) \<times> world" where
  "get_xai_feedback generated_problem past_problems_sample w =
     get_openai_response (xai_prompt generated_problem past_problems_sample) w"

section \<open>\<^verbatim>\<open>create_fake_gtoc\<close>\<close>

definition marker :: string where
  "marker = ''Target Name''"

definition no_problem :: string where
  "no_problem = ''No problem generated''"

definition csv_header :: string where
  "csv_header = ''Target Name,Distance (AU),Delta-V (km/s),Time Window (days)''"

text \<open>
  Lines 132 to 135, and again lines 160 to 163: when the marker occurs in the
  completion, \<open>problem_text\<close> and \<open>csv_data\<close> are assigned from the two parts of the
  split; otherwise they keep the values \<open>current\<close> they had.
\<close>

definition split_response :: "string \<Rightarrow> string \<times> string \<Rightarrow> error + string \<times> string" where
  "split_response response current =
     (if py_in marker response
      then (let parts = split1 marker response in
            case py_index parts 0 of
              Inl e \<Rightarrow> Inl e
            | Inr part0 \<Rightarrow>
                (case py_index parts 1 of
                   Inl e \<Rightarrow> Inl e
                 | Inr part1 \<Rightarrow> Inr (strip part0, marker @ strip part1)))
      else Inr current)"

definition draft_prompt :: "nat \<Rightarrow> string \<Rightarrow> string" where
  "draft_prompt gtoc_number past_problems_sample =
     ''Based on the style and content of previous GTOC problem statements below, create a new problem '' @
     ''for a hypothetical GTOC'' @ str_nat gtoc_number @
     ''. Include a mission description and objectives.'' @ NL @ NL @
     ''Then generate fake mission data in CSV format (columns: Target Name, Distance (AU), Delta-V (km/s), Time Window (days)).'' @ NL @ NL @
     ''PAST PROBLEMS:'' @ NL @ past_problems_sample"

definition fix_prompt :: "nat \<Rightarrow> string \<Rightarrow> string \<Rightarrow> string \<Rightarrow> string" where
  "fix_prompt score problem_text past_problems_sample xai_feedback =
     ''The following GTOC problem scored poorly ('' @ str_nat score @
     ''). Please revise it to better match the style and depth of real GTOCs.'' @ NL @ NL @
     ''Problem to fix:'' @ NL @ problem_text @ NL @ NL @
     ''Real examples:'' @ NL @ past_problems_sample @ NL @ NL @
     ''Suggestions:'' @ NL @ xai_feedback"

text \<open>Lines 142 to 146.\<close>

definition parse_score :: "string \<Rightarrow> error + nat" where
  "parse_score xai_feedback =
     (case search_label ''Score:'' xai_feedback of
        Some g \<Rightarrow> py_int g
      | None \<Rightarrow> Inr 0)"

definition brain :: string where
  "brain = [CHR 0xF0, CHR 0x9F, CHR 0xA7, CHR 0xA0]"

definition warning_sign :: string where
  "warning_sign = [CHR 0xE2, CHR 0x9A, CHR 0xA0, CHR 0xEF, CHR 0xB8, CHR 0x8F]"

definition check_mark :: string where
  "check_mark = [CHR 0xE2, CHR 0x9C, CHR 0x85]"

text \<open>
  Lines 117 to 165, steps 1 to 3: the draft, the critique and the conditional revision.
  The result is the final \<open>(problem_text, csv_data, xai_feedback)\<close>.
\<close>

definition draft_critique_revise ::
  "nat \<Rightarrow> fs \<Rightarrow> string \<Rightarrow> world \<Rightarrow> (error + string \<times> string \<times> string) \<times> world" where
  "draft_critique_revise gtoc_number f base_folder w =
     (case load_past_problem_statements f base_folder of
        Inl e \<Rightarrow> (Inl e, w)
      | Inr past_problems_list \<Rightarrow>
          (let past_problems_sample = join (NL @ NL) (take 5 past_problems_list) in
           case get_openai_response (draft_prompt gtoc_number past_problems_sample) w of
             (Inl e, w1) \<Rightarrow> (Inl e, w1)
           | (Inr response, w1) \<Rightarrow>
               (case split_response response (no_problem, csv_header) of
                  Inl e \<Rightarrow> (Inl e, w1)
                | Inr (problem_text, csv_data) \<Rightarrow>
                    (case get_xai_feedback problem_text past_problems_sample w1 of
                       (Inl e, w2) \<Rightarrow> (Inl e, w2)
                     | (Inr xai_feedback, w2) \<Rightarrow>
                         (let w3 = print (brain @ '' XAI Feedback:'' @ NL @ xai_feedback) w2 in
                          case parse_score xai_feedback of
                            Inl e \<Rightarrow> (Inl e, w3)
                          | Inr score \<Rightarrow>
                             if score < 70
                             then (let w4 = print (warning_sign @
                                              '' XAI feedback score too low, requesting improvement...'') w3
                                   in case get_openai_response
                                             (fix_prompt score problem_text past_problems_sample xai_feedback) w4 of
                                        (Inl e, w5) \<Rightarrow> (Inl e, w5)
                                      | (Inr improved_response, w5) \<Rightarrow>
                                          (case split_response improved_response (problem_text, csv_data) of
                                             Inl e \<Rightarrow> (Inl e, w5)
                                           | Inr (problem_text', csv_data') \<Rightarrow>
                                               (Inr (problem_text', csv_data', xai_feedback),
                                                print (check_mark @ '' Problem improved based on XAI feedback.'') w5)))
                             else (Inr (problem_text, csv_data, xai_feedback), w3))))))"

definition write_file :: "fs \<Rightarrow> string \<Rightarrow> string \<Rightarrow> world \<Rightarrow> error option \<times> world" where
  "write_file f path content w =
     (if can_write f path then (None, w\<lparr>written := written w @ [(path, content)]\<rparr>)
      else (Some OSError, w))"

text \<open>Lines 167 to 180, step 4.\<close>

definition save_outputs ::
  "nat \<Rightarrow> fs \<Rightarrow> string \<Rightarrow> string \<times> string \<times> string \<Rightarrow> world \<Rightarrow> error option \<times> world" where
  "save_outputs gtoc_number f base_folder artifact w =
     (case artifact of (problem_text, csv_data, xai_feedback) \<Rightarrow>
        (let new_folder = path_join base_folder (''Gtoc'' @ str_nat gtoc_number) in
         if \<not> can_makedirs f new_folder then (Some OSError, w)
         else (let w1 = w\<lparr>made_dirs := made_dirs w @ [new_folder]\<rparr> in
               case write_file f (path_join new_folder (''GTOC'' @ str_nat gtoc_number @ ''-PROBLEM.txt''))
                      problem_text w1 of
                 (Some e, w2) \<Rightarrow> (Some e, w2)
               | (None, w2) \<Rightarrow>
                   (case write_file f (path_join new_folder (''GTOC'' @ str_nat gtoc_number @ ''-data.csv''))
                           csv_data w2 of
                      (Some e, w3) \<Rightarrow> (Some e, w3)
                    | (None, w3) \<Rightarrow>
                        (case write_file f
                                (path_join new_folder (''GTOC'' @ str_nat gtoc_number @ ''-XAI-Feedback.txt''))
                                xai_feedback w3 of
                           (Some e, w4) \<Rightarrow> (Some e, w4)
                         | (None, w4) \<Rightarrow>
                             (None, print (check_mark @ '' GTOC'' @ str_nat gtoc_number @
                                           '' created and saved in '' @ [CHR 0x27] @ new_folder @
                                           [CHR 0x27] @ ''.'') w4))))))"

definition create_fake_gtoc :: "nat \<Rightarrow> fs \<Rightarrow> string \<Rightarrow> world \<Rightarrow> error option \<times> world" where
  "create_fake_gtoc gtoc_number f base_folder w =
     (case draft_critique_revise gtoc_number f base_folder w of
        (Inl e, w') \<Rightarrow> (Some e, w')
      | (Inr artifact, w') \<Rightarrow> save_outputs gtoc_number f base_folder artifact w')"

section \<open>\<^verbatim>\<open>parse_gtoc_request\<close>\<close>

definition place_map :: "(string \<times> string) list" where
  "place_map =
     [(''1st'', ''1st''), (''first'', ''1st''),
      (''2nd'', ''2nd''), (''second'', ''2nd''),
      (''3rd'', ''3rd''), (''third'', ''3rd'')]"

text \<open>Lines 194 to 200.\<close>

definition placement_key_of :: "string \<Rightarrow> string option" where
  "placement_key_of s =
     (case place_search s of
        Some g \<Rightarrow> map_of place_map g
      | None \<Rightarrow> None)"

definition parse_gtoc_request :: "string \<Rightarrow> error + string option \<times> string option" where
  "parse_gtoc_request user_input =
     (case search_label ''gtoc'' (lower user_input) of
        Some g \<Rightarrow>
          (case py_int g of
             Inl e \<Rightarrow> Inl e
           | Inr number \<Rightarrow>
               if number > 99 then Inr (None, None)
               else Inr (Some (''gtoc'' @ str_nat number), placement_key_of (lower user_input)))
      | None \<Rightarrow> Inr (None, placement_key_of (lower user_input)))"

section \<open>\<^verbatim>\<open>start_chatbot\<close>\<close>

text \<open>Lines 244 to 248: the two nested loops that build \<open>all_text\<close>.\<close>

fun add_placements :: "string \<Rightarrow> placement_map \<Rightarrow> string \<Rightarrow> string" where
  "add_placements g_key [] all_text = all_text"
| "add_placements g_key ((place, txt) # placements) all_text =
     add_placements g_key placements
       (all_text @ upper g_key @ '' '' @ upper place @ '':'' @ NL @ take 500 txt @ NL @ NL)"

fun add_gtocs :: "gtoc_data \<Rightarrow> string \<Rightarrow> string" where
  "add_gtocs [] all_text = all_text"
| "add_gtocs ((g_key, placements) # rest) all_text =
     add_gtocs rest (add_placements g_key placements all_text)"

definition global_prompt :: "gtoc_data \<Rightarrow> string \<Rightarrow> string" where
  "global_prompt gtoc_data user_input =
     (let all_text = add_gtocs gtoc_data [] in
      ''Based on all known GTOCs:'' @ NL @ NL @ take 3000 all_text @ NL @ NL @
      ''User's question: '' @ user_input)"

text \<open>Lines 227 to 242: the prompt for an event key.\<close>

definition scoped_prompt :: "gtoc_data \<Rightarrow> string \<Rightarrow> string option \<Rightarrow> string \<Rightarrow> string" where
  "scoped_prompt gtoc_data gtoc_key placement_key user_input =
     (case map_of gtoc_data gtoc_key of
        None \<Rightarrow> upper gtoc_key @ '' not found.''
      | Some folder_data \<Rightarrow>
          if folder_data = [] then upper gtoc_key @ '' not found.''
          else (case placement_key of
                  None \<Rightarrow>
                    (let combined =
                           join (NL @ NL)
                             (map (\<lambda>(place, txt). upper place @ '' PLACE:'' @ NL @ take 800 txt)
                                folder_data)
                     in ''Here's info for '' @ upper gtoc_key @ '':'' @ NL @ combined @ NL @ NL @
                        ''User asked: '' @ user_input)
                | Some pk \<Rightarrow>
                    (case map_of folder_data pk of
                       None \<Rightarrow> ''No info for '' @ pk @ '' in '' @ upper gtoc_key @ ''.''
                     | Some content \<Rightarrow>
                         if content = [] then ''No info for '' @ pk @ '' in '' @ upper gtoc_key @ ''.''
                         else ''Based only on this content:'' @ NL @ NL @ take 2000 content @ NL @ NL @
                              ''Answer this:'' @ NL @ user_input)))"

text \<open>
  Lines 225 to 248. A string is truthy when it is not empty, so \<^verbatim>\<open>if gtoc_key\<close> and
  \<^verbatim>\<open>if placement_key\<close> take the first branch on a non-empty string.
\<close>

definition answer_prompt :: "gtoc_data \<Rightarrow> string \<Rightarrow> error + string" where
  "answer_prompt gtoc_data user_input =
     (case parse_gtoc_request user_input of
        Inl e \<Rightarrow> Inl e
      | Inr (gtoc_key, placement_key) \<Rightarrow>
          Inr (case gtoc_key of
                 None \<Rightarrow> global_prompt gtoc_data user_input
               | Some k \<Rightarrow>
                   if k = [] then global_prompt gtoc_data user_input
                   else scoped_prompt gtoc_data k
                          (case placement_key of
                             None \<Rightarrow> None
                           | Some pk \<Rightarrow> if pk = [] then None else Some pk)
                          user_input))"

text \<open>
  What one turn of the loop does with a line that is not the exit word: it calls
  \<^verbatim>\<open>create_fake_gtoc(n)\<close> (line 218), prints the already-exists line (line 221), or
  sends a prompt to the completion service and prints the answer (lines 250 and 251).
\<close>

datatype action = Synthesize nat | Already_Exists nat | Answer string

text \<open>Lines 224 to 248: the answer to a line that is not a request to generate.\<close>

definition answer_action :: "gtoc_data \<Rightarrow> string \<Rightarrow> error + action" where
  "answer_action gtoc_data user_input =
     (case answer_prompt gtoc_data user_input of
        Inl e \<Rightarrow> Inl e
      | Inr prompt \<Rightarrow> Inr (Answer prompt))"

text \<open>
  Lines 214 to 248: which of the three it is, or the exception that \<^verbatim>\<open>int\<close> raises on
  the way.
\<close>

definition choose_action :: "gtoc_data \<Rightarrow> string \<Rightarrow> error + action" where
  "choose_action gtoc_data user_input =
     (case gen_search (lower user_input) of
        None \<Rightarrow> answer_action gtoc_data user_input
      | Some g \<Rightarrow>
          if g = [] then answer_action gtoc_data user_input
          else (case py_int g of
                  Inl e \<Rightarrow> Inl e
                | Inr future_gtoc \<Rightarrow>
                    if \<not> dict_has (''gtoc'' @ str_nat future_gtoc) gtoc_data
                    then Inr (Synthesize future_gtoc)
                    else Inr (Already_Exists future_gtoc)))"

definition default_base_folder :: string where
  "default_base_folder = ''Gtoc information''"

definition perform :: "action \<Rightarrow> fs \<Rightarrow> world \<Rightarrow> error option \<times> world" where
  "perform a f w =
     (case a of
        Synthesize future_gtoc \<Rightarrow> create_fake_gtoc future_gtoc f default_base_folder w
      | Already_Exists future_gtoc \<Rightarrow>
          (None, print (''GTOC'' @ str_nat future_gtoc @ '' already exists.'') w)
      | Answer prompt \<Rightarrow>
          (case get_openai_response prompt w of
             (Inl e, w') \<Rightarrow> (Some e, w')
           | (Inr response, w') \<Rightarrow> (None, print (''Bot: '' @ response) w')))"

definition chat_turn :: "gtoc_data \<Rightarrow> fs \<Rightarrow> string \<Rightarrow> world \<Rightarrow> error option \<times> world" where
  "chat_turn gtoc_data f user_input w =
     (case choose_action gtoc_data user_input of
        Inl e \<Rightarrow> (Some e, w)
      | Inr a \<Rightarrow> perform a f w)"

text \<open>
  Lines 209 to 251: the loop, over the lines that \<^verbatim>\<open>input\<close> will read. \<^verbatim>\<open>input\<close>
  writes its prompt and raises \<^verbatim>\<open>EOFError\<close> when no line is left; an exception of a
  turn ends the loop.
\<close>

fun chat_loop :: "gtoc_data \<Rightarrow> fs \<Rightarrow> string list \<Rightarrow> world \<Rightarrow> error option \<times> world" where
  "chat_loop gtoc_data f [] w = (Some EOFError, w\<lparr>stdout := stdout w @ [''You: '']\<rparr>)"
| "chat_loop gtoc_data f (user_input # lines) w =
     (let w0 = w\<lparr>stdout := stdout w @ [''You: '']\<rparr> in
      if lower user_input = ''exit'' then (None, w0)
      else (case chat_turn gtoc_data f user_input w0 of
              (Some e, w') \<Rightarrow> (Some e, w')
            | (None, w') \<Rightarrow> chat_loop gtoc_data f lines w'))"

definition start_chatbot :: "gtoc_data \<Rightarrow> fs \<Rightarrow> string list \<Rightarrow> world \<Rightarrow> error option \<times> world" where
  "start_chatbot gtoc_data f lines w =
     chat_loop gtoc_data f lines (print ''Chatbot ready! Type 'exit' to quit.'' w)"

definition main :: "fs \<Rightarrow> string list \<Rightarrow> world \<Rightarrow> error option \<times> world" where
  "main f lines w =
     (case load_gtoc_pdfs_by_placement f default_base_folder of
        Inl e \<Rightarrow> (Some e, w)
      | Inr gtoc_data \<Rightarrow> start_chatbot gtoc_data f lines w)"

section \<open>What the specification says, and example inputs\<close>

text \<open>
  The first file of a rank folder with the recognised extension, and, for an event
  folder and a rank key, the texts of the documents matched for that key, one per rank
  folder that has a match, in traversal order.
\<close>

definition first_pdf :: "string list \<Rightarrow> string option" where
  "first_pdf files = find (\<lambda>file. suffix ''.pdf'' (lower file)) files"

definition folder_text :: "fs \<Rightarrow> string \<Rightarrow> string \<Rightarrow> string \<Rightarrow> string list" where
  "folder_text f gtoc_path rank subfolder =
     (let subfolder_path = path_join gtoc_path subfolder in
      if isdir f subfolder_path \<and> placement_of subfolder = rank
      then (case listdir f subfolder_path of
              None \<Rightarrow> []
            | Some files \<Rightarrow>
                (case first_pdf files of
                   None \<Rightarrow> []
                 | Some file \<Rightarrow> [extract_text_from_pdf f (path_join subfolder_path file)]))
      else [])"

definition rank_texts :: "fs \<Rightarrow> string \<Rightarrow> string list \<Rightarrow> string \<Rightarrow> string list" where
  "rank_texts f gtoc_path subfolders rank = concat (map (folder_text f gtoc_path rank) subfolders)"

text \<open>
  A directory tree given by the listing of each directory and the pages of each readable
  document; every other path is a file that PyMuPDF cannot open.
\<close>

definition mk_fs :: "(string \<times> string list) list \<Rightarrow> (string \<times> string list) list \<Rightarrow> fs" where
  "mk_fs dirs pdfs =
     \<lparr>listdir = map_of dirs,
      isdir = (\<lambda>p. p \<in> set (map fst dirs)),
      fitz_pages = (\<lambda>p. case map_of pdfs p of Some pages \<Rightarrow> Inr pages | None \<Rightarrow> Inl ''cannot open''),
      can_makedirs = (\<lambda>p. True),
      can_write = (\<lambda>p. True)\<rparr>"

definition podium_fs :: fs where
  "podium_fs = mk_fs
     [(''Gtoc information'', [''GTOC5'', ''notes.txt'', ''GTOC6'']),
      (''Gtoc information/GTOC5'',
         [''GTOC5-Problem.pdf'', ''Winner-1st-Place'', ''2ND runner up'', ''bronze-3rd'', ''Honorable'']),
      (''Gtoc information/GTOC5/Winner-1st-Place'', [''readme.md'', ''gold.PDF'', ''extra.pdf'']),
      (''Gtoc information/GTOC5/2ND runner up'', [''silver.pdf'']),
      (''Gtoc information/GTOC5/bronze-3rd'', [''bronze.pdf'']),
      (''Gtoc information/GTOC5/Honorable'', [''mention.pdf'']),
      (''Gtoc information/GTOC6'', [''1st'']),
      (''Gtoc information/GTOC6/1st'', [''slides.ppt''])]
     [(''Gtoc information/GTOC5/GTOC5-Problem.pdf'', [''Design a trajectory. '']),
      (''Gtoc information/GTOC5/Winner-1st-Place/gold.PDF'', [''gold page 1'', ''gold page 2'']),
      (''Gtoc information/GTOC5/Winner-1st-Place/extra.pdf'', [''extra'']),
      (''Gtoc information/GTOC5/2ND runner up/silver.pdf'', [''silver'']),
      (''Gtoc information/GTOC5/bronze-3rd/bronze.pdf'', [''bronze''])]"

definition podium_map :: placement_map where
  "podium_map =
     [(''1st'', ''gold page 1'' @ NL @ ''gold page 2''), (''2nd'', ''silver''), (''3rd'', ''bronze''),
      (''other'', ''Error reading PDF: cannot open'')]"

definition two_others_fs :: fs where
  "two_others_fs = mk_fs
     [(''Gtoc information'', [''GTOC9'']),
      (''Gtoc information/GTOC9'', [''4th place'', ''5th place'']),
      (''Gtoc information/GTOC9/4th place'', [''a.pdf'']),
      (''Gtoc information/GTOC9/5th place'', [''b.pdf''])]
     [(''Gtoc information/GTOC9/4th place/a.pdf'', [''fourth'']),
      (''Gtoc information/GTOC9/5th place/b.pdf'', [''fifth''])]"

text \<open>Line 118: the style sample, the first five snippets joined by blank lines.\<close>

definition sample_of :: "string list \<Rightarrow> string" where
  "sample_of past_problems_list = join (NL @ NL) (take 5 past_problems_list)"

text \<open>
  The labelled excerpt of one (event, rank) pair, with at most 500 characters of the
  document text, and the excerpts of the whole index in iteration order.
\<close>

definition excerpt :: "string \<Rightarrow> string \<Rightarrow> string \<Rightarrow> string" where
  "excerpt g_key place txt = upper g_key @ '' '' @ upper place @ '':'' @ NL @ take 500 txt @ NL @ NL"

definition all_excerpts :: "gtoc_data \<Rightarrow> string" where
  "all_excerpts gtoc_data =
     concat (map (\<lambda>(g_key, placements). concat (map (\<lambda>(place, txt). excerpt g_key place txt) placements))
               gtoc_data)"

text \<open>A fresh session: nothing sent, printed or written yet.\<close>

definition world0 :: "string option list \<Rightarrow> world" where
  "world0 g = \<lparr>gateway = g, requests = [], stdout = [], made_dirs = [], written = []\<rparr>"

definition big_index :: gtoc_data where
  "big_index =
     [(''gtoc1'', [(''1st'', replicate 600 CHR ''a''), (''2nd'', replicate 600 CHR ''b''),
                   (''3rd'', replicate 600 CHR ''c''), (''other'', replicate 600 CHR ''d'')]),
      (''gtoc2'', [(''1st'', replicate 600 CHR ''e''), (''2nd'', replicate 600 CHR ''f''),
                   (''3rd'', replicate 600 CHR ''g'')])]"

definition spec_completion :: string where
  "spec_completion =
     ''Intro paragraph.'' @ NL @ ''Target Name,Distance,Delta-V,Time Window'' @ NL @ ''Alpha,1.2,3.4,10''"


section \<open>Properties\<close>

lemmas string_ops =
  lower_def lower_char_def upper_def upper_char_def upper_letters_def lower_letters_def
  strip_def isspace_def isdigit_def digit_val_def int_of_digits_def digit_char_def
  py_int_def max_str_digits_def
  str_nat.simps NL_def split1_def endswith_def path_join_def

subsection \<open>Strings and dictionaries\<close>

lemma py_in_sublist: "py_in sub s \<longleftrightarrow> sublist sub s"
  by (induction s) (auto simp: sublist_Cons_right)

lemma endswith_suffix: "endswith s p \<longleftrightarrow> suffix p s"
  by (simp add: endswith_def suffix_to_prefix)

lemma set_dict_set: "set (dict_set k v d) \<subseteq> insert (k, v) (set d)"
  by (induction d) (auto split: if_splits)

lemma map_of_dict_set: "map_of (dict_set k v d) = (map_of d)(k \<mapsto> v)"
  by (induction d) auto

lemma keys_dict_set: "set (map fst (dict_set k v d)) = insert k (set (map fst d))"
proof -
  have "fst ` set (dict_set k v d) = dom (map_of (dict_set k v d))"
    by (simp only: dom_map_of_conv_image_fst)
  also have "\<dots> = insert k (dom (map_of d))"
    by (simp add: map_of_dict_set)
  also have "\<dots> = insert k (fst ` set d)"
    by (simp only: dom_map_of_conv_image_fst)
  finally show ?thesis by simp
qed

lemma distinct_dict_set: "distinct (map fst d) \<Longrightarrow> distinct (map fst (dict_set k v d))"
proof (induction d)
  case Nil
  then show ?case by simp
next
  case (Cons a d)
  obtain k' v' where a: "a = (k', v')" by (cases a)
  show ?case
  proof (cases "k' = k")
    case True
    with Cons.prems a show ?thesis by simp
  next
    case False
    have "k' \<notin> set (map fst (dict_set k v d))"
      using Cons.prems a False by (simp only: keys_dict_set) auto
    with Cons a False show ?thesis by simp
  qed
qed

subsection \<open>The index builder\<close>

lemma scan_files_first_pdf:
  "scan_files f sp pl files pm =
     (case first_pdf files of
        None \<Rightarrow> pm
      | Some file \<Rightarrow> dict_set pl (extract_text_from_pdf f (path_join sp file)) pm)"
  by (induction files) (auto simp: first_pdf_def endswith_suffix)

lemma scan_files_distinct:
  "distinct (map fst pm) \<Longrightarrow> distinct (map fst (scan_files f sp pl files pm))"
  by (simp add: scan_files_first_pdf distinct_dict_set split: option.splits)

lemma scan_subfolders_distinct:
  "scan_subfolders f gp subs pm0 = Inr pm \<Longrightarrow> distinct (map fst pm0) \<Longrightarrow> distinct (map fst pm)"
proof (induction subs arbitrary: pm0)
  case Nil
  then show ?case by simp
next
  case (Cons s subs)
  then show ?case
    by (auto simp: Let_def scan_files_distinct split: if_splits option.splits)
qed

lemma scan_subfolders_last:
  "scan_subfolders f gp subs pm0 = Inr pm \<Longrightarrow>
   map_of pm rank =
     (if rank_texts f gp subs rank = [] then map_of pm0 rank
      else Some (last (rank_texts f gp subs rank)))"
proof (induction subs arbitrary: pm0)
  case Nil
  then show ?case by (simp add: rank_texts_def)
next
  case (Cons s subs)
  show ?case
  proof (cases "isdir f (path_join gp s)")
    case False
    with Cons.prems have "scan_subfolders f gp subs pm0 = Inr pm" by simp
    from Cons.IH [OF this] False show ?thesis
      by (simp add: rank_texts_def folder_text_def Let_def)
  next
    case True
    with Cons.prems obtain files where
      files: "listdir f (path_join gp s) = Some files" and
      rest: "scan_subfolders f gp subs (scan_files f (path_join gp s) (placement_of s) files pm0) = Inr pm"
      by (auto simp: Let_def split: option.splits)
    have parts: "rank_texts f gp (s # subs) rank = folder_text f gp rank s @ rank_texts f gp subs rank"
      by (simp add: rank_texts_def)
    have here: "map_of (scan_files f (path_join gp s) (placement_of s) files pm0) rank =
                  (if folder_text f gp rank s = [] then map_of pm0 rank
                   else Some (last (folder_text f gp rank s)))"
      using True files
      by (auto simp: scan_files_first_pdf folder_text_def Let_def map_of_dict_set split: option.splits)
    from Cons.IH [OF rest] here parts show ?thesis
      by auto
  qed
qed

lemma scan_gtoc_folders_origin:
  "scan_gtoc_folders f b es acc = Inr d \<Longrightarrow> (k, pm) \<in> set d \<Longrightarrow>
   (k, pm) \<in> set acc \<or>
   (\<exists>g subs. g \<in> set es \<and> lower g = k \<and> isdir f (path_join b g) \<and>
       listdir f (path_join b g) = Some subs \<and>
       scan_subfolders f (path_join b g) subs [] = Inr pm \<and> pm \<noteq> [])"
proof (induction es arbitrary: acc)
  case Nil
  then show ?case by simp
next
  case (Cons e es)
  show ?case
  proof (cases "isdir f (path_join b e)")
    case False
    with Cons.prems have "scan_gtoc_folders f b es acc = Inr d" by simp
    from Cons.IH [OF this Cons.prems(2)] show ?thesis by auto
  next
    case True
    with Cons.prems(1) obtain subs pm1 where
      subs: "listdir f (path_join b e) = Some subs" and
      pm1: "scan_subfolders f (path_join b e) subs [] = Inr pm1" and
      rest: "scan_gtoc_folders f b es (if pm1 \<noteq> [] then dict_set (lower e) pm1 acc else acc) = Inr d"
      by (auto simp: Let_def split: option.splits sum.splits)
    from Cons.IH [OF rest Cons.prems(2)] show ?thesis
    proof
      assume in_acc: "(k, pm) \<in> set (if pm1 \<noteq> [] then dict_set (lower e) pm1 acc else acc)"
      show ?thesis
      proof (cases "(k, pm) \<in> set acc")
        case True
        then show ?thesis by simp
      next
        case False
        with in_acc have ne: "pm1 \<noteq> []" by (auto split: if_splits)
        with in_acc False set_dict_set [of "lower e" pm1 acc] have "k = lower e" "pm = pm1"
          by auto
        with True subs pm1 ne show ?thesis by auto
      qed
    next
      assume "\<exists>g subs. g \<in> set es \<and> lower g = k \<and> isdir f (path_join b g) \<and>
        listdir f (path_join b g) = Some subs \<and>
        scan_subfolders f (path_join b g) subs [] = Inr pm \<and> pm \<noteq> []"
      then show ?thesis by auto
    qed
  qed
qed

lemma load_origin:
  assumes "load_gtoc_pdfs_by_placement f base_folder = Inr gtoc_data"
    and "(event_key, placement_map) \<in> set gtoc_data"
  shows "\<exists>entries gtoc_folder subfolders.
           listdir f base_folder = Some entries \<and> gtoc_folder \<in> set entries \<and>
           lower gtoc_folder = event_key \<and> isdir f (path_join base_folder gtoc_folder) \<and>
           listdir f (path_join base_folder gtoc_folder) = Some subfolders \<and>
           scan_subfolders f (path_join base_folder gtoc_folder) subfolders [] = Inr placement_map \<and>
           placement_map \<noteq> []"
proof -
  from assms(1) obtain entries where
    entries: "listdir f base_folder = Some entries" and
    scan: "scan_gtoc_folders f base_folder entries [] = Inr gtoc_data"
    by (auto simp: load_gtoc_pdfs_by_placement_def split: option.splits)
  from scan_gtoc_folders_origin [OF scan assms(2)] entries show ?thesis
    by auto
qed

lemma podium_index:
  "load_gtoc_pdfs_by_placement podium_fs ''Gtoc information'' = Inr [(''gtoc5'', podium_map)]"
  by (simp add: load_gtoc_pdfs_by_placement_def podium_fs_def podium_map_def mk_fs_def
      extract_text_from_pdf_def placement_of_def string_ops)

text \<open>
  C8: the rank key of a rank folder is found by substring search on the lowercased
  folder name, trying 1st, then 2nd, then 3rd, and is "other" when none occurs; the four
  folder names of the specification get 1st, 2nd, 3rd and other.
\<close>

theorem rank_classification:
  "placement_of subfolder =
     (if sublist ''1st'' (lower subfolder) then ''1st''
      else if sublist ''2nd'' (lower subfolder) then ''2nd''
      else if sublist ''3rd'' (lower subfolder) then ''3rd''
      else ''other'')
   \<and> placement_of ''Winner-1st-Place'' = ''1st''
   \<and> placement_of ''2ND runner up'' = ''2nd''
   \<and> placement_of ''bronze-3rd'' = ''3rd''
   \<and> placement_of ''Honorable'' = ''other''"
proof -
  have "placement_of subfolder =
     (if sublist ''1st'' (lower subfolder) then ''1st''
      else if sublist ''2nd'' (lower subfolder) then ''2nd''
      else if sublist ''3rd'' (lower subfolder) then ''3rd''
      else ''other'')"
    by (simp add: placement_of_def Let_def py_in_sublist)
  moreover have "placement_of ''Winner-1st-Place'' = ''1st''"
    by (simp add: placement_of_def string_ops)
  moreover have "placement_of ''2ND runner up'' = ''2nd''"
    by (simp add: placement_of_def string_ops)
  moreover have "placement_of ''bronze-3rd'' = ''3rd''"
    by (simp add: placement_of_def string_ops)
  moreover have "placement_of ''Honorable'' = ''other''"
    by (simp add: placement_of_def string_ops)
  ultimately show ?thesis by simp
qed

theorem rank_classification_witness:
  "sublist ''1st'' (lower ''Tied 1ST and 2nd'') \<and> placement_of ''Tied 1ST and 2nd'' = ''1st''"
proof -
  have h: "sublist ''1st'' (lower ''Tied 1ST and 2nd'')"
    by (simp add: py_in_sublist [symmetric] string_ops)
  show ?thesis using h rank_classification [of "''Tied 1ST and 2nd''"] by simp
qed

text \<open>
  C6: every event key of the index that the builder returns maps to a non-empty
  placement map; an entry of the index always comes from an event folder whose rank
  folders contributed at least one text, so a folder that contributes none adds no entry.
\<close>

theorem index_entries_nonempty:
  assumes "load_gtoc_pdfs_by_placement f base_folder = Inr gtoc_data"
    and "(event_key, placement_map) \<in> set gtoc_data"
  shows "placement_map \<noteq> [] \<and>
         (\<exists>entries gtoc_folder subfolders.
             listdir f base_folder = Some entries \<and> gtoc_folder \<in> set entries \<and>
             lower gtoc_folder = event_key \<and>
             isdir f (path_join base_folder gtoc_folder) \<and>
             listdir f (path_join base_folder gtoc_folder) = Some subfolders \<and>
             scan_subfolders f (path_join base_folder gtoc_folder) subfolders [] = Inr placement_map)"
  using load_origin [OF assms] by blast

theorem index_entries_nonempty_witness:
  "load_gtoc_pdfs_by_placement podium_fs ''Gtoc information'' = Inr [(''gtoc5'', podium_map)]
   \<and> (''gtoc5'', podium_map) \<in> set [(''gtoc5'', podium_map)]
   \<and> podium_map \<noteq> []
   \<and> listdir podium_fs ''Gtoc information'' = Some [''GTOC5'', ''notes.txt'', ''GTOC6'']
   \<and> isdir podium_fs ''Gtoc information/GTOC6''
   \<and> \<not> dict_has ''gtoc6'' [(''gtoc5'', podium_map)]"
proof -
  have h1: "load_gtoc_pdfs_by_placement podium_fs ''Gtoc information'' = Inr [(''gtoc5'', podium_map)]"
    by (rule podium_index)
  have h2: "(''gtoc5'', podium_map) \<in> set [(''gtoc5'', podium_map)]"
    by simp
  have "podium_map \<noteq> []"
    using index_entries_nonempty [OF h1 h2] by simp
  moreover have "listdir podium_fs ''Gtoc information'' = Some [''GTOC5'', ''notes.txt'', ''GTOC6'']"
    by (simp add: podium_fs_def mk_fs_def)
  moreover have "isdir podium_fs ''Gtoc information/GTOC6''"
    by (simp add: podium_fs_def mk_fs_def)
  moreover have "\<not> dict_has ''gtoc6'' [(''gtoc5'', podium_map)]"
    by (simp add: dict_has_def)
  ultimately show ?thesis using h1 h2 by simp
qed

text \<open>
  C4, as the specification states it: the text retained for a rank key is that of the
  first matching document in traversal order, later matches for the same key being
  discarded. With two rank folders of one event that both classify as "other", the
  builder keeps the text of the second folder, not of the first.
\<close>

theorem first_match_wins_counterexample:
  "load_gtoc_pdfs_by_placement two_others_fs ''Gtoc information'' = Inr [(''gtoc9'', [(''other'', ''fifth'')])]
   \<and> rank_texts two_others_fs ''Gtoc information/GTOC9'' [''4th place'', ''5th place''] ''other''
       = [''fourth'', ''fifth'']
   \<and> map_of [(''other'', ''fifth'')] ''other''
       \<noteq> Some (hd (rank_texts two_others_fs ''Gtoc information/GTOC9'' [''4th place'', ''5th place''] ''other''))"
proof -
  have a: "load_gtoc_pdfs_by_placement two_others_fs ''Gtoc information'' = Inr [(''gtoc9'', [(''other'', ''fifth'')])]"
    by (simp add: load_gtoc_pdfs_by_placement_def two_others_fs_def mk_fs_def
        extract_text_from_pdf_def placement_of_def string_ops)
  have b: "rank_texts two_others_fs ''Gtoc information/GTOC9'' [''4th place'', ''5th place''] ''other''
             = [''fourth'', ''fifth'']"
    by (simp add: rank_texts_def folder_text_def first_pdf_def two_others_fs_def mk_fs_def
        extract_text_from_pdf_def placement_of_def suffix_to_prefix string_ops)
  show ?thesis using a b by simp
qed

text \<open>
  C4, amended: for every event of the index the placement map holds at most one text
  per rank key; a rank folder contributes the text of its first file (in traversal
  order) whose lowercased name ends in .pdf and its other files are ignored; and when
  several rank folders of the event classify to the same rank key, the text kept for
  that key is the one contributed by the last of them in traversal order.
\<close>

theorem one_text_per_rank:
  assumes "load_gtoc_pdfs_by_placement f base_folder = Inr gtoc_data"
    and "(event_key, placement_map) \<in> set gtoc_data"
  shows "distinct (map fst placement_map) \<and>
         (\<exists>entries gtoc_folder subfolders.
             listdir f base_folder = Some entries \<and> gtoc_folder \<in> set entries \<and>
             lower gtoc_folder = event_key \<and>
             isdir f (path_join base_folder gtoc_folder) \<and>
             listdir f (path_join base_folder gtoc_folder) = Some subfolders \<and>
             (\<forall>rank. map_of placement_map rank =
                (if rank_texts f (path_join base_folder gtoc_folder) subfolders rank = [] then None
                 else Some (last (rank_texts f (path_join base_folder gtoc_folder) subfolders rank)))))"
proof -
  from load_origin [OF assms] obtain entries gtoc_folder subfolders where
    entries: "listdir f base_folder = Some entries" "gtoc_folder \<in> set entries" and
    key: "lower gtoc_folder = event_key" and
    dir: "isdir f (path_join base_folder gtoc_folder)" and
    subs: "listdir f (path_join base_folder gtoc_folder) = Some subfolders" and
    scan: "scan_subfolders f (path_join base_folder gtoc_folder) subfolders [] = Inr placement_map"
    by blast
  have "distinct (map fst placement_map)"
    using scan_subfolders_distinct [OF scan] by simp
  moreover have "\<forall>rank. map_of placement_map rank =
      (if rank_texts f (path_join base_folder gtoc_folder) subfolders rank = [] then None
       else Some (last (rank_texts f (path_join base_folder gtoc_folder) subfolders rank)))"
    using scan_subfolders_last [OF scan] by simp
  ultimately show ?thesis using entries key dir subs by blast
qed

theorem one_text_per_rank_witness:
  "load_gtoc_pdfs_by_placement podium_fs ''Gtoc information'' = Inr [(''gtoc5'', podium_map)]
   \<and> (''gtoc5'', podium_map) \<in> set [(''gtoc5'', podium_map)]
   \<and> distinct (map fst podium_map)
   \<and> (\<exists>entries gtoc_folder subfolders.
         listdir podium_fs ''Gtoc information'' = Some entries \<and> gtoc_folder \<in> set entries \<and>
         lower gtoc_folder = ''gtoc5'' \<and>
         isdir podium_fs (path_join ''Gtoc information'' gtoc_folder) \<and>
         listdir podium_fs (path_join ''Gtoc information'' gtoc_folder) = Some subfolders \<and>
         (\<forall>rank. map_of podium_map rank =
            (if rank_texts podium_fs (path_join ''Gtoc information'' gtoc_folder) subfolders rank = [] then None
             else Some (last (rank_texts podium_fs (path_join ''Gtoc information'' gtoc_folder) subfolders rank)))))
   \<and> first_pdf [''readme.md'', ''gold.PDF'', ''extra.pdf''] = Some ''gold.PDF''"
proof -
  have h1: "load_gtoc_pdfs_by_placement podium_fs ''Gtoc information'' = Inr [(''gtoc5'', podium_map)]"
    by (rule podium_index)
  have h2: "(''gtoc5'', podium_map) \<in> set [(''gtoc5'', podium_map)]"
    by simp
  have h3: "first_pdf [''readme.md'', ''gold.PDF'', ''extra.pdf''] = Some ''gold.PDF''"
    by (simp add: first_pdf_def suffix_to_prefix string_ops)
  show ?thesis using h1 h2 h3 one_text_per_rank [OF h1 h2] by simp
qed

subsection \<open>The marker split\<close>

lemma cut_first_None: "sep \<noteq> [] \<Longrightarrow> cut_first sep s = None \<longleftrightarrow> \<not> py_in sep s"
  by (induction s) (auto split: option.splits)

lemma cut_first_Some:
  "cut_first sep s = Some (before, after) \<Longrightarrow>
   s = before @ sep @ after \<and> (\<forall>i < length before. \<not> prefix sep (drop i s))"
proof (induction s arbitrary: before)
  case Nil
  then show ?case by simp
next
  case (Cons c cs)
  show ?case
  proof (cases "prefix sep (c # cs)")
    case True
    with Cons.prems have b: "before = []" and a: "after = drop (length sep) (c # cs)" by auto
    from True obtain zs where "c # cs = sep @ zs" by (auto simp: prefix_def)
    with a b show ?thesis by simp
  next
    case False
    with Cons.prems obtain b' where c: "cut_first sep cs = Some (b', after)" and b: "before = c # b'"
      by (auto split: option.splits)
    from Cons.IH [OF c] have eq: "cs = b' @ sep @ after"
      and first: "\<forall>i < length b'. \<not> prefix sep (drop i cs)" by auto
    have "\<forall>i < length before. \<not> prefix sep (drop i (c # cs))"
    proof (intro allI impI)
      fix i assume i: "i < length before"
      show "\<not> prefix sep (drop i (c # cs))"
      proof (cases i)
        case 0
        with False show ?thesis by simp
      next
        case (Suc j)
        with i b first show ?thesis by simp
      qed
    qed
    with eq b show ?thesis by simp
  qed
qed

lemma marker_not_Nil: "marker \<noteq> []"
  by (simp add: marker_def)

lemma split_response_marker:
  assumes "py_in marker response"
  shows "\<exists>before after. cut_first marker response = Some (before, after) \<and>
           split_response response current = Inr (strip before, marker @ strip after)"
proof -
  from assms cut_first_None [OF marker_not_Nil, of response]
  obtain before after where "cut_first marker response = Some (before, after)"
    by (cases "cut_first marker response") auto
  then show ?thesis using assms
    by (simp add: split_response_def split1_def py_index_def)
qed

lemma split_response_no_marker:
  "\<not> py_in marker response \<Longrightarrow> split_response response current = Inr current"
  by (simp add: split_response_def)

lemma split_response_total: "\<exists>p c. split_response response current = Inr (p, c)"
proof (cases "py_in marker response")
  case True
  from split_response_marker [OF True] show ?thesis by blast
next
  case False
  then show ?thesis by (cases current) (simp add: split_response_no_marker)
qed

subsection \<open>The generation loop\<close>

lemmas regex_ops = gen_at_def verb_length_def match_label_def ws_digits_def

lemma requests_print [simp]: "requests (print s w) = requests w"
  by (simp add: print_def)

lemma gateway_print [simp]: "gateway (print s w) = gateway w"
  by (simp add: print_def)

lemma requests_get_openai_response:
  "get_openai_response prompt w = (r, w') \<Longrightarrow> requests w' = requests w @ [prompt]"
  by (auto simp: get_openai_response_def split: list.splits option.splits)

lemma get_openai_response_Some:
  "gateway w = Some content # rest \<Longrightarrow>
   get_openai_response prompt w =
     (Inr (strip content), w\<lparr>gateway := rest, requests := requests w @ [prompt]\<rparr>)"
  by (simp add: get_openai_response_def)

lemma requests_write_file: "write_file f path content w = (r, w') \<Longrightarrow> requests w' = requests w"
  by (auto simp: write_file_def split: if_splits)

lemma requests_save_outputs:
  assumes "save_outputs n f b artifact w = (r, w')"
  shows "requests w' = requests w"
proof -
  obtain p c x where artifact: "artifact = (p, c, x)" by (cases artifact)
  show ?thesis
    using assms unfolding artifact save_outputs_def Let_def write_file_def
    by (auto split: if_splits)
qed

lemma dcr_bound:
  assumes "draft_critique_revise n f b w = (r, w')"
  shows "length (requests w') \<le> length (requests w) + 3"
proof (cases "load_past_problem_statements f b")
  case (Inl e)
  with assms show ?thesis by (simp add: draft_critique_revise_def)
next
  case (Inr past)
  obtain r1 w1 where c1: "get_openai_response (draft_prompt n (join (NL @ NL) (take 5 past))) w = (r1, w1)"
    by (cases "get_openai_response (draft_prompt n (join (NL @ NL) (take 5 past))) w")
  note q1 = requests_get_openai_response [OF c1]
  show ?thesis
  proof (cases r1)
    case (Inl e)
    with assms Inr c1 q1 show ?thesis by (auto simp: draft_critique_revise_def Let_def)
  next
    case resp: (Inr response)
    from split_response_total obtain p c where
      sp: "split_response response (no_problem, csv_header) = Inr (p, c)" by blast
    obtain r2 w2 where c2: "get_openai_response (xai_prompt p (join (NL @ NL) (take 5 past))) w1 = (r2, w2)"
      by (cases "get_openai_response (xai_prompt p (join (NL @ NL) (take 5 past))) w1")
    note q2 = requests_get_openai_response [OF c2]
    show ?thesis
    proof (cases r2)
      case (Inl e)
      with assms Inr c1 resp sp c2 q1 q2 show ?thesis
        by (auto simp: draft_critique_revise_def Let_def get_xai_feedback_def)
    next
      case fb: (Inr xai_feedback)
      show ?thesis
      proof (cases "parse_score xai_feedback")
        case bad: (Inl e)
        with assms Inr c1 resp sp c2 fb q1 q2 show ?thesis
          by (auto simp: draft_critique_revise_def Let_def get_xai_feedback_def)
      next
        case sc: (Inr score)
        show ?thesis
        proof (cases "score < 70")
          case False
          with assms Inr c1 resp sp c2 fb sc q1 q2 show ?thesis
            by (auto simp: draft_critique_revise_def Let_def get_xai_feedback_def)
        next
          case True
          let ?w4 = "print (warning_sign @ '' XAI feedback score too low, requesting improvement...'')
                       (print (brain @ '' XAI Feedback:'' @ NL @ xai_feedback) w2)"
          let ?fix = "fix_prompt score p (join (NL @ NL) (take 5 past)) xai_feedback"
          obtain r3 w3 where c3: "get_openai_response ?fix ?w4 = (r3, w3)"
            by (cases "get_openai_response ?fix ?w4")
          note q3 = requests_get_openai_response [OF c3]
          show ?thesis
          proof (cases r3)
            case (Inl e)
            with assms Inr c1 resp sp c2 fb sc True c3 q1 q2 q3 show ?thesis
              by (auto simp: draft_critique_revise_def Let_def get_xai_feedback_def)
          next
            case imp: (Inr improved)
            from split_response_total obtain p' c' where
              sp2: "split_response improved (p, c) = Inr (p', c')" by blast
            with assms Inr c1 resp sp c2 fb sc True c3 imp q1 q2 q3 show ?thesis
              by (auto simp: draft_critique_revise_def Let_def get_xai_feedback_def)
          qed
        qed
      qed
    qed
  qed
qed

lemma dcr_run:
  assumes past: "load_past_problem_statements f b = Inr past"
    and gw: "gateway w = Some draft # Some critique # rest"
    and sp: "split_response (strip draft) (no_problem, csv_header) = Inr (p, c)"
    and run: "draft_critique_revise n f b w = (r, w')"
  shows "requests w' =
           requests w @ [draft_prompt n (sample_of past), xai_prompt p (sample_of past)] @
           (case parse_score (strip critique) of
              Inr score \<Rightarrow>
                if score < 70 then [fix_prompt score p (sample_of past) (strip critique)] else []
            | Inl e \<Rightarrow> [])"
proof -
  let ?w1 = "w\<lparr>gateway := Some critique # rest, requests := requests w @ [draft_prompt n (sample_of past)]\<rparr>"
  let ?w2 = "?w1\<lparr>gateway := rest, requests := requests ?w1 @ [xai_prompt p (sample_of past)]\<rparr>"
  have c1: "get_openai_response (draft_prompt n (sample_of past)) w = (Inr (strip draft), ?w1)"
    using gw by (simp add: get_openai_response_Some)
  have c2: "get_xai_feedback p (sample_of past) ?w1 = (Inr (strip critique), ?w2)"
    by (simp add: get_xai_feedback_def get_openai_response_Some)
  show ?thesis
  proof (cases "parse_score (strip critique)")
    case bad: (Inl e)
    with past c1 sp c2 run show ?thesis
      by (auto simp: draft_critique_revise_def Let_def sample_of_def [symmetric])
  next
    case sc: (Inr score)
    show ?thesis
    proof (cases "score < 70")
      case False
      with past c1 sp c2 sc run show ?thesis
        by (auto simp: draft_critique_revise_def Let_def sample_of_def [symmetric])
    next
      case True
      let ?w4 = "print (warning_sign @ '' XAI feedback score too low, requesting improvement...'')
                   (print (brain @ '' XAI Feedback:'' @ NL @ strip critique) ?w2)"
      let ?fix = "fix_prompt score p (sample_of past) (strip critique)"
      obtain r3 w3 where c3: "get_openai_response ?fix ?w4 = (r3, w3)"
        by (cases "get_openai_response ?fix ?w4")
      have q3: "requests w3 = requests ?w4 @ [?fix]"
        by (rule requests_get_openai_response [OF c3])
      have w': "requests w' = requests w3"
      proof (cases r3)
        case (Inl e)
        with past c1 sp c2 sc run True c3 show ?thesis
          by (auto simp: draft_critique_revise_def Let_def sample_of_def [symmetric])
      next
        case imp: (Inr improved)
        from split_response_total obtain p' c' where sp2: "split_response improved (p, c) = Inr (p', c')"
          by blast
        with past c1 sp c2 sc run True c3 imp show ?thesis
          by (auto simp: draft_critique_revise_def Let_def sample_of_def [symmetric])
      qed
      show ?thesis using w' q3 sc True by simp
    qed
  qed
qed

lemma requests_create_fake_gtoc:
  assumes "create_fake_gtoc n f b w = (outcome, w')"
  shows "\<exists>r w1. draft_critique_revise n f b w = (r, w1) \<and> requests w' = requests w1"
proof -
  obtain r w1 where d: "draft_critique_revise n f b w = (r, w1)"
    by (cases "draft_critique_revise n f b w")
  show ?thesis
  proof (cases r)
    case (Inl e)
    with assms d show ?thesis by (simp add: create_fake_gtoc_def)
  next
    case (Inr artifact)
    with assms d have "save_outputs n f b artifact w1 = (outcome, w')"
      by (simp add: create_fake_gtoc_def)
    from requests_save_outputs [OF this] d show ?thesis by simp
  qed
qed

lemma draft_accepted:
  assumes past: "load_past_problem_statements f base_folder = Inr past"
    and gw: "gateway w = Some draft # Some critique # rest"
    and sp: "split_response (strip draft) (no_problem, csv_header) = Inr (p, c)"
    and sc: "parse_score (strip critique) = Inr score"
    and high: "\<not> score < 70"
  shows "fst (draft_critique_revise gtoc_number f base_folder w) = Inr (p, c, strip critique)"
proof -
  let ?w1 = "w\<lparr>gateway := Some critique # rest,
                requests := requests w @ [draft_prompt gtoc_number (sample_of past)]\<rparr>"
  let ?w2 = "?w1\<lparr>gateway := rest, requests := requests ?w1 @ [xai_prompt p (sample_of past)]\<rparr>"
  have c1: "get_openai_response (draft_prompt gtoc_number (sample_of past)) w = (Inr (strip draft), ?w1)"
    using gw by (simp add: get_openai_response_Some)
  have c2: "get_xai_feedback p (sample_of past) ?w1 = (Inr (strip critique), ?w2)"
    by (simp add: get_xai_feedback_def get_openai_response_Some)
  show ?thesis
    unfolding draft_critique_revise_def
    by (simp only: past sum.case Let_def sample_of_def [symmetric] c1 prod.case sp c2 sc high if_False fst_conv)
qed

lemma podium_past:
  "load_past_problem_statements podium_fs ''Gtoc information'' = Inr [''Design a trajectory.'']"
  by (simp add: load_past_problem_statements_def podium_fs_def mk_fs_def
      extract_text_from_pdf_def replace_nl_def string_ops)

text \<open>
  C1: when the first two completion requests of \<^verbatim>\<open>create_fake_gtoc\<close> are answered, the
  requests it issues are the draft prompt, the critique prompt and, exactly when the
  score parsed from the critique is below 70, one revision prompt; a critique without a
  parseable score counts as score 0 and so is revised. Whatever the service and the
  disk do, at most three requests are issued, so at most one revision pass occurs.
\<close>

theorem score_gated_revision:
  assumes "create_fake_gtoc gtoc_number f base_folder w = (outcome, w')"
  shows "length (requests w') \<le> length (requests w) + 3 \<and>
         (load_past_problem_statements f base_folder = Inr past \<and>
          gateway w = Some draft # Some critique # rest \<longrightarrow>
            (\<exists>problem_text csv_data.
                split_response (strip draft) (no_problem, csv_header) = Inr (problem_text, csv_data) \<and>
                requests w' =
                  requests w @ [draft_prompt gtoc_number (sample_of past), xai_prompt problem_text (sample_of past)] @
                  (case parse_score (strip critique) of
                     Inr score \<Rightarrow>
                       if score < 70
                       then [fix_prompt score problem_text (sample_of past) (strip critique)]
                       else []
                   | Inl e \<Rightarrow> [])) \<and>
            (parse_score (strip critique) = Inr score \<and> score < 70 \<longrightarrow>
               length (requests w') = length (requests w) + 3) \<and>
            (parse_score (strip critique) = Inr score \<and> 70 \<le> score \<longrightarrow>
               length (requests w') = length (requests w) + 2) \<and>
            (search_label ''Score:'' (strip critique) = None \<longrightarrow>
               parse_score (strip critique) = Inr 0 \<and> length (requests w') = length (requests w) + 3) \<and>
            (parse_score (strip critique) = Inl err \<longrightarrow>
               length (requests w') = length (requests w) + 2))"
proof -
  from requests_create_fake_gtoc [OF assms] obtain r w1 where
    d: "draft_critique_revise gtoc_number f base_folder w = (r, w1)" and eq: "requests w' = requests w1"
    by blast
  have bound: "length (requests w') \<le> length (requests w) + 3"
    using dcr_bound [OF d] eq by simp
  have run: "load_past_problem_statements f base_folder = Inr past \<and>
          gateway w = Some draft # Some critique # rest \<longrightarrow>
            (\<exists>problem_text csv_data.
                split_response (strip draft) (no_problem, csv_header) = Inr (problem_text, csv_data) \<and>
                requests w' =
                  requests w @ [draft_prompt gtoc_number (sample_of past), xai_prompt problem_text (sample_of past)] @
                  (case parse_score (strip critique) of
                     Inr score \<Rightarrow>
                       if score < 70
                       then [fix_prompt score problem_text (sample_of past) (strip critique)]
                       else []
                   | Inl e \<Rightarrow> [])) \<and>
            (parse_score (strip critique) = Inr score \<and> score < 70 \<longrightarrow>
               length (requests w') = length (requests w) + 3) \<and>
            (parse_score (strip critique) = Inr score \<and> 70 \<le> score \<longrightarrow>
               length (requests w') = length (requests w) + 2) \<and>
            (search_label ''Score:'' (strip critique) = None \<longrightarrow>
               parse_score (strip critique) = Inr 0 \<and> length (requests w') = length (requests w) + 3) \<and>
            (parse_score (strip critique) = Inl err \<longrightarrow>
               length (requests w') = length (requests w) + 2)"
  proof (rule impI, elim conjE)
    assume past: "load_past_problem_statements f base_folder = Inr past"
      and gw: "gateway w = Some draft # Some critique # rest"
    from split_response_total obtain p c where
      sp: "split_response (strip draft) (no_problem, csv_header) = Inr (p, c)" by blast
    have q: "requests w' =
               requests w @ [draft_prompt gtoc_number (sample_of past), xai_prompt p (sample_of past)] @
               (case parse_score (strip critique) of
                  Inr score \<Rightarrow>
                    if score < 70 then [fix_prompt score p (sample_of past) (strip critique)] else []
                | Inl e \<Rightarrow> [])"
      using dcr_run [OF past gw sp d] eq by simp
    have none: "search_label ''Score:'' (strip critique) = None \<Longrightarrow> parse_score (strip critique) = Inr 0"
      by (simp add: parse_score_def)
    have first: "\<exists>problem_text csv_data.
                split_response (strip draft) (no_problem, csv_header) = Inr (problem_text, csv_data) \<and>
                requests w' =
                  requests w @ [draft_prompt gtoc_number (sample_of past), xai_prompt problem_text (sample_of past)] @
                  (case parse_score (strip critique) of
                     Inr score \<Rightarrow>
                       if score < 70
                       then [fix_prompt score problem_text (sample_of past) (strip critique)]
                       else []
                   | Inl e \<Rightarrow> [])"
      using sp q by blast
    have low: "parse_score (strip critique) = Inr score \<and> score < 70 \<longrightarrow>
               length (requests w') = length (requests w) + 3"
      using q by auto
    have high: "parse_score (strip critique) = Inr score \<and> 70 \<le> score \<longrightarrow>
               length (requests w') = length (requests w) + 2"
      using q by auto
    have unparsed: "search_label ''Score:'' (strip critique) = None \<longrightarrow>
               parse_score (strip critique) = Inr 0 \<and> length (requests w') = length (requests w) + 3"
      using q none by auto
    have raised: "parse_score (strip critique) = Inl err \<longrightarrow>
               length (requests w') = length (requests w) + 2"
      using q by auto
    from first low high unparsed raised
    show "(\<exists>problem_text csv_data.
                split_response (strip draft) (no_problem, csv_header) = Inr (problem_text, csv_data) \<and>
                requests w' =
                  requests w @ [draft_prompt gtoc_number (sample_of past), xai_prompt problem_text (sample_of past)] @
                  (case parse_score (strip critique) of
                     Inr score \<Rightarrow>
                       if score < 70
                       then [fix_prompt score problem_text (sample_of past) (strip critique)]
                       else []
                   | Inl e \<Rightarrow> [])) \<and>
            (parse_score (strip critique) = Inr score \<and> score < 70 \<longrightarrow>
               length (requests w') = length (requests w) + 3) \<and>
            (parse_score (strip critique) = Inr score \<and> 70 \<le> score \<longrightarrow>
               length (requests w') = length (requests w) + 2) \<and>
            (search_label ''Score:'' (strip critique) = None \<longrightarrow>
               parse_score (strip critique) = Inr 0 \<and> length (requests w') = length (requests w) + 3) \<and>
            (parse_score (strip critique) = Inl err \<longrightarrow>
               length (requests w') = length (requests w) + 2)"
      by (intro conjI)
  qed
  from bound run show ?thesis by (rule conjI)
qed

theorem score_gated_revision_witness:
  "load_past_problem_statements podium_fs ''Gtoc information'' = Inr [''Design a trajectory.'']
   \<and> parse_score (strip ''Score: 42'') = Inr 42
   \<and> length (requests (snd (create_fake_gtoc 30 podium_fs ''Gtoc information''
        (world0 [Some spec_completion, Some ''Score: 42'', Some ''no table'', Some ''unused''])))) = 3
   \<and> parse_score (strip ''Score: 85'') = Inr 85
   \<and> length (requests (snd (create_fake_gtoc 30 podium_fs ''Gtoc information''
        (world0 [Some spec_completion, Some ''Score: 85'', Some ''unused''])))) = 2
   \<and> search_label ''Score:'' (strip ''Looks fine to me.'') = None
   \<and> length (requests (snd (create_fake_gtoc 30 podium_fs ''Gtoc information''
        (world0 [Some spec_completion, Some ''Looks fine to me.'', Some ''no table''])))) = 3"
proof -
  have s42: "parse_score (strip ''Score: 42'') = Inr 42"
    by (simp add: parse_score_def regex_ops string_ops)
  have s85: "parse_score (strip ''Score: 85'') = Inr 85"
    by (simp add: parse_score_def regex_ops string_ops)
  have none: "search_label ''Score:'' (strip ''Looks fine to me.'') = None"
    by (simp add: regex_ops string_ops)
  have a: "length (requests (snd (create_fake_gtoc 30 podium_fs ''Gtoc information''
        (world0 [Some spec_completion, Some ''Score: 42'', Some ''no table'', Some ''unused''])))) = 3"
    using score_gated_revision
      [OF prod.collapse [symmetric], of 30 podium_fs "''Gtoc information''"
        "world0 [Some spec_completion, Some ''Score: 42'', Some ''no table'', Some ''unused'']"
        "[''Design a trajectory.'']" spec_completion "''Score: 42''" "[Some ''no table'', Some ''unused'']" 42]
      podium_past s42
    by (simp add: world0_def)
  have b: "length (requests (snd (create_fake_gtoc 30 podium_fs ''Gtoc information''
        (world0 [Some spec_completion, Some ''Score: 85'', Some ''unused''])))) = 2"
    using score_gated_revision
      [OF prod.collapse [symmetric], of 30 podium_fs "''Gtoc information''"
        "world0 [Some spec_completion, Some ''Score: 85'', Some ''unused'']"
        "[''Design a trajectory.'']" spec_completion "''Score: 85''" "[Some ''unused'']" 85]
      podium_past s85
    by (simp add: world0_def)
  have c: "length (requests (snd (create_fake_gtoc 30 podium_fs ''Gtoc information''
        (world0 [Some spec_completion, Some ''Looks fine to me.'', Some ''no table''])))) = 3"
    using score_gated_revision
      [OF prod.collapse [symmetric], of 30 podium_fs "''Gtoc information''"
        "world0 [Some spec_completion, Some ''Looks fine to me.'', Some ''no table'']"
        "[''Design a trajectory.'']" spec_completion "''Looks fine to me.''" "[Some ''no table'']" 0]
      podium_past none
    by (simp add: world0_def)
  show ?thesis using podium_past s42 s85 none a b c by simp
qed

text \<open>
  C9: when the score is below 70 and the revision completion does not contain the
  marker, the problem text and the table text at the end of the revision pass are the
  ones the draft step produced, and these are what \<^verbatim>\<open>create_fake_gtoc\<close> saves; the
  placeholder is a default of the draft step only.
\<close>

theorem revision_without_marker_keeps_draft:
  assumes past: "load_past_problem_statements f base_folder = Inr past"
    and gw: "gateway w = Some draft # Some critique # Some revision # rest"
    and sc: "parse_score (strip critique) = Inr score"
    and low: "score < 70"
    and nomark: "\<not> py_in marker (strip revision)"
  shows "\<exists>problem_text csv_data w'.
           split_response (strip draft) (no_problem, csv_header) = Inr (problem_text, csv_data) \<and>
           draft_critique_revise gtoc_number f base_folder w = (Inr (problem_text, csv_data, strip critique), w') \<and>
           create_fake_gtoc gtoc_number f base_folder w =
             save_outputs gtoc_number f base_folder (problem_text, csv_data, strip critique) w'"
proof -
  from split_response_total obtain p c where
    sp: "split_response (strip draft) (no_problem, csv_header) = Inr (p, c)" by blast
  let ?w1 = "w\<lparr>gateway := Some critique # Some revision # rest,
                requests := requests w @ [draft_prompt gtoc_number (sample_of past)]\<rparr>"
  let ?w2 = "?w1\<lparr>gateway := Some revision # rest, requests := requests ?w1 @ [xai_prompt p (sample_of past)]\<rparr>"
  let ?w4 = "print (warning_sign @ '' XAI feedback score too low, requesting improvement...'')
               (print (brain @ '' XAI Feedback:'' @ NL @ strip critique) ?w2)"
  let ?fix = "fix_prompt score p (sample_of past) (strip critique)"
  let ?w5 = "?w4\<lparr>gateway := rest, requests := requests ?w4 @ [?fix]\<rparr>"
  have c1: "get_openai_response (draft_prompt gtoc_number (sample_of past)) w = (Inr (strip draft), ?w1)"
    using gw by (simp add: get_openai_response_Some)
  have c2: "get_xai_feedback p (sample_of past) ?w1 = (Inr (strip critique), ?w2)"
    by (simp add: get_xai_feedback_def get_openai_response_Some)
  have c3: "get_openai_response ?fix ?w4 = (Inr (strip revision), ?w5)"
    by (simp add: get_openai_response_Some)
  have keep: "split_response (strip revision) (p, c) = Inr (p, c)"
    using nomark by (rule split_response_no_marker)
  have d: "draft_critique_revise gtoc_number f base_folder w =
             (Inr (p, c, strip critique), print (check_mark @ '' Problem improved based on XAI feedback.'') ?w5)"
    unfolding draft_critique_revise_def
    by (simp only: past sum.case Let_def sample_of_def [symmetric] c1 prod.case sp c2 sc low if_True c3 keep)
  then have "create_fake_gtoc gtoc_number f base_folder w =
      save_outputs gtoc_number f base_folder (p, c, strip critique)
        (print (check_mark @ '' Problem improved based on XAI feedback.'') ?w5)"
    by (simp add: create_fake_gtoc_def)
  with sp d show ?thesis by blast
qed

theorem revision_without_marker_keeps_draft_witness:
  "load_past_problem_statements podium_fs ''Gtoc information'' = Inr [''Design a trajectory.'']
   \<and> parse_score (strip ''Score: 42'') = Inr 42
   \<and> (42::nat) < 70
   \<and> \<not> py_in marker (strip ''Sorry, I have no table.'')
   \<and> fst (draft_critique_revise 30 podium_fs ''Gtoc information''
        (world0 [Some spec_completion, Some ''Score: 42'', Some ''Sorry, I have no table.'']))
       = Inr (''Intro paragraph.'',
              ''Target Name,Distance,Delta-V,Time Window'' @ NL @ ''Alpha,1.2,3.4,10'',
              ''Score: 42'')"
proof -
  have sc: "parse_score (strip ''Score: 42'') = Inr 42"
    by (simp add: parse_score_def regex_ops string_ops)
  have low: "(42::nat) < 70"
    by simp
  have nomark: "\<not> py_in marker (strip ''Sorry, I have no table.'')"
    by (simp add: marker_def string_ops)
  have gw: "gateway (world0 [Some spec_completion, Some ''Score: 42'', Some ''Sorry, I have no table.''])
              = Some spec_completion # Some ''Score: 42'' # Some ''Sorry, I have no table.'' # []"
    by (simp add: world0_def)
  have sp: "split_response (strip spec_completion) (no_problem, csv_header) =
              Inr (''Intro paragraph.'', ''Target Name,Distance,Delta-V,Time Window'' @ NL @ ''Alpha,1.2,3.4,10'')"
    by (simp add: spec_completion_def split_response_def marker_def py_index_def string_ops)
  have st: "strip ''Score: 42'' = ''Score: 42''"
    by (simp add: string_ops)
  from revision_without_marker_keeps_draft [OF podium_past gw sc low nomark, of 30]
  obtain p c w' where
    "split_response (strip spec_completion) (no_problem, csv_header) = Inr (p, c)"
    "draft_critique_revise 30 podium_fs ''Gtoc information''
       (world0 [Some spec_completion, Some ''Score: 42'', Some ''Sorry, I have no table.''])
       = (Inr (p, c, strip ''Score: 42''), w')"
    by blast
  with sp st have "fst (draft_critique_revise 30 podium_fs ''Gtoc information''
        (world0 [Some spec_completion, Some ''Score: 42'', Some ''Sorry, I have no table.'']))
       = Inr (''Intro paragraph.'',
              ''Target Name,Distance,Delta-V,Time Window'' @ NL @ ''Alpha,1.2,3.4,10'',
              ''Score: 42'')"
    by simp
  with podium_past sc nomark show ?thesis by simp
qed

text \<open>
  C2, as the specification states it: the table text is the marker put back in front of
  the remainder of the completion. The remainder is trimmed first, so when it begins
  with whitespace the table text is not the text from the marker onward.
\<close>

theorem table_is_remainder_counterexample:
  "py_in marker ''Intro. Target Name , Distance''
   \<and> cut_first marker ''Intro. Target Name , Distance'' = Some (''Intro. '', '' , Distance'')
   \<and> split_response ''Intro. Target Name , Distance'' (no_problem, csv_header)
       = Inr (''Intro.'', ''Target Name, Distance'')
   \<and> fst (draft_critique_revise 30 podium_fs ''Gtoc information''
        (world0 [Some ''Intro. Target Name , Distance'', Some ''Score: 85'']))
       = Inr (''Intro.'', ''Target Name, Distance'', ''Score: 85'')
   \<and> ''Target Name, Distance'' \<noteq> marker @ '' , Distance''"
proof -
  have m: "py_in marker ''Intro. Target Name , Distance''"
    by (simp add: marker_def)
  have c: "cut_first marker ''Intro. Target Name , Distance'' = Some (''Intro. '', '' , Distance'')"
    by (simp add: marker_def)
  have st: "strip ''Intro. Target Name , Distance'' = ''Intro. Target Name , Distance''"
    by (simp add: string_ops)
  have sp: "split_response ''Intro. Target Name , Distance'' (no_problem, csv_header)
              = Inr (''Intro.'', ''Target Name, Distance'')"
    by (simp add: split_response_def marker_def py_index_def string_ops)
  have sc: "strip ''Score: 85'' = ''Score: 85''"
    by (simp add: string_ops)
  have score: "parse_score (strip ''Score: 85'') = Inr 85"
    by (simp add: parse_score_def regex_ops string_ops)
  have high: "\<not> (85::nat) < 70"
    by simp
  have gw: "gateway (world0 [Some ''Intro. Target Name , Distance'', Some ''Score: 85''])
              = Some ''Intro. Target Name , Distance'' # Some ''Score: 85'' # []"
    by (simp add: world0_def)
  have run: "fst (draft_critique_revise 30 podium_fs ''Gtoc information''
        (world0 [Some ''Intro. Target Name , Distance'', Some ''Score: 85'']))
       = Inr (''Intro.'', ''Target Name, Distance'', ''Score: 85'')"
    using draft_accepted [OF podium_past gw _ score high, of "''Intro.''" "''Target Name, Distance''" 30] sp st sc
    by simp
  have ne: "''Target Name, Distance'' \<noteq> marker @ '' , Distance''"
    by (simp add: marker_def)
  from m c sp run ne show ?thesis by simp
qed

text \<open>
  C2, amended: when the completion contains the marker, it is split at the first
  occurrence; the problem text is the text before the marker, trimmed, and the table
  text is the marker followed by the remainder, trimmed as well. When the completion
  does not contain the marker, the problem text is the placeholder and the table text
  the header row. The split always yields a result and never raises.
\<close>

theorem marker_split:
  "(py_in marker response \<longrightarrow>
      (\<exists>before after.
          response = before @ marker @ after \<and>
          (\<forall>i < length before. \<not> prefix marker (drop i response)) \<and>
          split_response response (no_problem, csv_header) = Inr (strip before, marker @ strip after))) \<and>
   (\<not> py_in marker response \<longrightarrow>
      split_response response (no_problem, csv_header) = Inr (no_problem, csv_header)) \<and>
   (\<exists>problem_text csv_data.
      split_response response (no_problem, csv_header) = Inr (problem_text, csv_data))"
proof (intro conjI impI)
  assume m: "py_in marker response"
  from split_response_marker [OF m, of "(no_problem, csv_header)"] obtain before after where
    c: "cut_first marker response = Some (before, after)" and
    s: "split_response response (no_problem, csv_header) = Inr (strip before, marker @ strip after)"
    by blast
  from cut_first_Some [OF c] s
  show "\<exists>before after.
          response = before @ marker @ after \<and>
          (\<forall>i < length before. \<not> prefix marker (drop i response)) \<and>
          split_response response (no_problem, csv_header) = Inr (strip before, marker @ strip after)"
    by blast
next
  assume "\<not> py_in marker response"
  then show "split_response response (no_problem, csv_header) = Inr (no_problem, csv_header)"
    by (rule split_response_no_marker)
next
  show "\<exists>problem_text csv_data.
      split_response response (no_problem, csv_header) = Inr (problem_text, csv_data)"
    by (rule split_response_total)
qed

theorem marker_split_witness:
  "py_in marker spec_completion
   \<and> (\<exists>before after.
          spec_completion = before @ marker @ after \<and>
          (\<forall>i < length before. \<not> prefix marker (drop i spec_completion)) \<and>
          split_response spec_completion (no_problem, csv_header) = Inr (strip before, marker @ strip after))
   \<and> split_response spec_completion (no_problem, csv_header)
       = Inr (''Intro paragraph.'', ''Target Name,Distance,Delta-V,Time Window'' @ NL @ ''Alpha,1.2,3.4,10'')
   \<and> \<not> py_in marker ''I cannot help with that.''
   \<and> split_response ''I cannot help with that.'' (no_problem, csv_header)
       = Inr (''No problem generated'', ''Target Name,Distance (AU),Delta-V (km/s),Time Window (days)'')"
proof -
  have m: "py_in marker spec_completion"
    by (simp add: spec_completion_def marker_def NL_def)
  have n: "\<not> py_in marker ''I cannot help with that.''"
    by (simp add: marker_def)
  have sp: "split_response spec_completion (no_problem, csv_header)
       = Inr (''Intro paragraph.'', ''Target Name,Distance,Delta-V,Time Window'' @ NL @ ''Alpha,1.2,3.4,10'')"
    by (simp add: spec_completion_def split_response_def marker_def py_index_def string_ops)
  show ?thesis
    using m n sp marker_split [of spec_completion] marker_split [of "''I cannot help with that.''"]
    by (simp add: no_problem_def csv_header_def)
qed

subsection \<open>Routing\<close>

lemma ws_digits_nonempty: "ws_digits s = Some g \<Longrightarrow> g \<noteq> []"
  by (auto simp: ws_digits_def Let_def split: if_splits)

lemma match_label_nonempty: "match_label label s = Some g \<Longrightarrow> g \<noteq> []"
  by (auto simp: match_label_def split: if_splits dest: ws_digits_nonempty)

lemma lazy_gtoc_nonempty: "lazy_gtoc s = Some g \<Longrightarrow> g \<noteq> []"
  by (induction s) (auto split: option.splits if_splits dest: match_label_nonempty)

lemma gen_search_nonempty: "gen_search s = Some g \<Longrightarrow> g \<noteq> []"
  by (induction s) (auto simp: gen_at_def split: option.splits dest: lazy_gtoc_nonempty)

lemma gen_search_exit: "gen_search ''exit'' = None"
  by (simp add: gen_at_def verb_length_def)

lemma add_placements_append:
  "add_placements g_key placements all_text =
     all_text @ concat (map (\<lambda>(place, txt). excerpt g_key place txt) placements)"
  by (induction placements arbitrary: all_text) (auto simp: excerpt_def)

lemma add_gtocs_append: "add_gtocs gtoc_data all_text = all_text @ all_excerpts gtoc_data"
  by (induction gtoc_data arbitrary: all_text) (auto simp: all_excerpts_def add_placements_append)

lemma py_int_short: "length g \<le> max_str_digits \<Longrightarrow> py_int g = Inr (int_of_digits g)"
  by (simp add: py_int_def)

lemma py_int_long: "max_str_digits < length g \<Longrightarrow> py_int g = Inl ValueError"
  by (simp add: py_int_def)













text \<open>
  C7: when no event key is parsed from the input, the prompt is the fixed opening, then
  the first 3000 characters of the concatenated labelled excerpts (each with at most 500
  characters of document text) of all (event, rank) pairs of the index, then the
  question; the context is exactly 3000 characters long whenever the excerpts exceed
  3000 characters.
\<close>

theorem global_context_truncated:
  assumes "parse_gtoc_request user_input = Inr (None, placement_key)"
  shows "answer_prompt gtoc_data user_input =
           Inr (''Based on all known GTOCs:'' @ NL @ NL @ take 3000 (all_excerpts gtoc_data) @ NL @ NL @
                ''User's question: '' @ user_input) \<and>
         length (take 3000 (all_excerpts gtoc_data)) \<le> 3000 \<and>
         (3000 < length (all_excerpts gtoc_data) \<longrightarrow> length (take 3000 (all_excerpts gtoc_data)) = 3000) \<and>
         (gen_search (lower user_input) = None \<longrightarrow>
            choose_action gtoc_data user_input =
              Inr (Answer (''Based on all known GTOCs:'' @ NL @ NL @ take 3000 (all_excerpts gtoc_data) @
                           NL @ NL @ ''User's question: '' @ user_input)))"
proof -
  have "answer_prompt gtoc_data user_input = Inr (global_prompt gtoc_data user_input)"
    using assms by (simp add: answer_prompt_def)
  then show ?thesis
    by (simp add: global_prompt_def add_gtocs_append choose_action_def answer_action_def)
qed

theorem global_context_truncated_witness:
  "parse_gtoc_request ''Which GTOC was hardest?'' = Inr (None, None)
   \<and> gen_search (lower ''Which GTOC was hardest?'') = None
   \<and> choose_action big_index ''Which GTOC was hardest?'' =
       Inr (Answer (''Based on all known GTOCs:'' @ NL @ NL @ take 3000 (all_excerpts big_index) @
                    NL @ NL @ ''User's question: '' @ ''Which GTOC was hardest?''))
   \<and> 3000 < length (all_excerpts big_index)
   \<and> length (take 3000 (all_excerpts big_index)) = 3000
   \<and> answer_prompt big_index ''Which GTOC was hardest?'' =
       Inr (''Based on all known GTOCs:'' @ NL @ NL @ take 3000 (all_excerpts big_index) @ NL @ NL @
            ''User's question: '' @ ''Which GTOC was hardest?'')"
proof -
  have h: "parse_gtoc_request ''Which GTOC was hardest?'' = Inr (None, None)"
    by (simp add: parse_gtoc_request_def placement_key_of_def place_words_def regex_ops string_ops)
  have big: "length (all_excerpts big_index) = 3593"
    by (simp add: all_excerpts_def big_index_def excerpt_def upper_def NL_def)
  have g: "gen_search (lower ''Which GTOC was hardest?'') = None"
    by (simp add: regex_ops string_ops)
  show ?thesis using h g big global_context_truncated [OF h, of big_index] by simp
qed




text \<open>
  C3: when the input matches the generation pattern and the key of its event number is
  in the index, the turn prints the already-exists line and does nothing else (no
  request, no file), and the loop goes on to the next line; a turn calls
  \<^verbatim>\<open>create_fake_gtoc\<close> only for an event key that is not in the index. (On a number
  of more than 4300 digits no event key is computed: \<^verbatim>\<open>int\<close> raises and the turn
  calls nothing.)
\<close>

theorem no_synthesis_for_known_event:
  "(gen_search (lower user_input) = Some g \<and> length g \<le> max_str_digits \<and>
    dict_has (''gtoc'' @ str_nat (int_of_digits g)) gtoc_data \<longrightarrow>
      choose_action gtoc_data user_input = Inr (Already_Exists (int_of_digits g)) \<and>
      chat_turn gtoc_data f user_input w =
        (None, print (''GTOC'' @ str_nat (int_of_digits g) @ '' already exists.'') w) \<and>
      chat_loop gtoc_data f (user_input # lines) w =
        chat_loop gtoc_data f lines
          (print (''GTOC'' @ str_nat (int_of_digits g) @ '' already exists.'')
             (w\<lparr>stdout := stdout w @ [''You: '']\<rparr>))) \<and>
   (choose_action gtoc_data user_input = Inr (Synthesize n) \<longrightarrow>
      \<not> dict_has (''gtoc'' @ str_nat n) gtoc_data) \<and>
   (gen_search (lower user_input) = Some g \<and>
    dict_has (''gtoc'' @ str_nat (int_of_digits g)) gtoc_data \<longrightarrow>
      choose_action gtoc_data user_input \<noteq> Inr (Synthesize m)) \<and>
   (gen_search (lower user_input) = Some g \<and> max_str_digits < length g \<longrightarrow>
      chat_turn gtoc_data f user_input w = (Some ValueError, w))"
proof -
  have known: "gen_search (lower user_input) = Some g \<and> length g \<le> max_str_digits \<and>
    dict_has (''gtoc'' @ str_nat (int_of_digits g)) gtoc_data \<longrightarrow>
      choose_action gtoc_data user_input = Inr (Already_Exists (int_of_digits g)) \<and>
      chat_turn gtoc_data f user_input w =
        (None, print (''GTOC'' @ str_nat (int_of_digits g) @ '' already exists.'') w) \<and>
      chat_loop gtoc_data f (user_input # lines) w =
        chat_loop gtoc_data f lines
          (print (''GTOC'' @ str_nat (int_of_digits g) @ '' already exists.'')
             (w\<lparr>stdout := stdout w @ [''You: '']\<rparr>))"
  proof (rule impI)
    assume h: "gen_search (lower user_input) = Some g \<and> length g \<le> max_str_digits \<and>
      dict_has (''gtoc'' @ str_nat (int_of_digits g)) gtoc_data"
    then have g: "g \<noteq> []" by (auto dest: gen_search_nonempty)
    have i: "py_int g = Inr (int_of_digits g)" using h by (simp add: py_int_short)
    have ex: "lower user_input \<noteq> ''exit''"
      using h gen_search_exit by auto
    have a: "choose_action gtoc_data user_input = Inr (Already_Exists (int_of_digits g))"
      using h g i by (simp add: choose_action_def)
    have t: "\<And>w. chat_turn gtoc_data f user_input w =
          (None, print (''GTOC'' @ str_nat (int_of_digits g) @ '' already exists.'') w)"
      using a by (simp add: chat_turn_def perform_def)
    show "choose_action gtoc_data user_input = Inr (Already_Exists (int_of_digits g)) \<and>
        chat_turn gtoc_data f user_input w =
          (None, print (''GTOC'' @ str_nat (int_of_digits g) @ '' already exists.'') w) \<and>
        chat_loop gtoc_data f (user_input # lines) w =
          chat_loop gtoc_data f lines
            (print (''GTOC'' @ str_nat (int_of_digits g) @ '' already exists.'')
               (w\<lparr>stdout := stdout w @ [''You: '']\<rparr>))"
      using a t ex by (simp add: Let_def)
  qed
  have only_absent: "choose_action gtoc_data user_input = Inr (Synthesize n) \<longrightarrow>
      \<not> dict_has (''gtoc'' @ str_nat n) gtoc_data"
    by (auto simp: choose_action_def answer_action_def split: option.splits if_splits sum.splits)
  have never: "gen_search (lower user_input) = Some g \<and>
    dict_has (''gtoc'' @ str_nat (int_of_digits g)) gtoc_data \<longrightarrow>
      choose_action gtoc_data user_input \<noteq> Inr (Synthesize m)"
    by (auto simp: choose_action_def answer_action_def py_int_def split: option.splits if_splits sum.splits)
  have raised: "gen_search (lower user_input) = Some g \<and> max_str_digits < length g \<longrightarrow>
      chat_turn gtoc_data f user_input w = (Some ValueError, w)"
    by (auto simp: chat_turn_def choose_action_def py_int_long dest: gen_search_nonempty)
  from known only_absent never raised show ?thesis by (intro conjI)
qed

theorem no_synthesis_for_known_event_witness:
  "gen_search (lower ''create gtoc5'') = Some ''5''
   \<and> length ''5'' \<le> max_str_digits
   \<and> dict_has (''gtoc'' @ str_nat (int_of_digits ''5'')) [(''gtoc5'', podium_map)]
   \<and> choose_action [(''gtoc5'', podium_map)] ''create gtoc5'' = Inr (Already_Exists 5)
   \<and> chat_turn [(''gtoc5'', podium_map)] podium_fs ''create gtoc5'' (world0 [])
       = (None, print ''GTOC5 already exists.'' (world0 []))
   \<and> choose_action [(''gtoc5'', podium_map)] ''create gtoc6'' = Inr (Synthesize 6)
   \<and> \<not> dict_has (''gtoc'' @ str_nat 6) [(''gtoc5'', podium_map)]"
proof -
  have h1: "gen_search (lower ''create gtoc5'') = Some ''5''"
    by (simp add: regex_ops string_ops)
  have h2: "dict_has (''gtoc'' @ str_nat (int_of_digits ''5'')) [(''gtoc5'', podium_map)]"
    by (simp add: dict_has_def string_ops)
  have n: "int_of_digits ''5'' = 5" "str_nat 5 = ''5''" "length ''5'' \<le> max_str_digits"
    by (simp_all add: string_ops)
  have h3: "choose_action [(''gtoc5'', podium_map)] ''create gtoc6'' = Inr (Synthesize 6)"
    by (simp add: choose_action_def dict_has_def regex_ops string_ops)
  show ?thesis
    using h1 h2 h3 n
      no_synthesis_for_known_event [of "''create gtoc5''" "''5''" "[(''gtoc5'', podium_map)]"
        podium_fs "world0 []" "[]" 6 6]
      no_synthesis_for_known_event [of "''create gtoc6''" "''6''" "[(''gtoc5'', podium_map)]"
        podium_fs "world0 []" "[]" 6 6]
    by simp
qed




end
